theory Spec2Isabelle
  imports Complex_Main "HOL-Library.Word"
begin

unbundle bit_operations_syntax

chapter \<open>The model\<close>

section \<open>Errors\<close>

text \<open>
  Go error values. \<open>Canceled\<close> is \<^verbatim>\<open>context.Canceled\<close>,
  \<open>ErrFailedToGetDNSAnswer\<close> is the package variable of \<^verbatim>\<open>helpers\<close>; every other
  error (\<^verbatim>\<open>errors.New\<close>, \<^verbatim>\<open>fmt.Errorf\<close>, resolver and transport errors) is an
  \<open>ErrorString\<close> carrying its message. The comparison \<^verbatim>\<open>err == context.Canceled\<close> of
  the source is equality of these values: an error that only prints the same message is a
  different value.
\<close>

datatype error = Canceled | ErrFailedToGetDNSAnswer | ErrorString string

fun Error :: "error \<Rightarrow> string" where
  "Error Canceled = ''context canceled''"
| "Error ErrFailedToGetDNSAnswer = ''failed to get a valid answer''"
| "Error (ErrorString s) = s"

section \<open>Package net of the Go standard library (as of Go 1.13, the version of go.mod)\<close>

text \<open>
  The helpers decide everything about addresses through \<^verbatim>\<open>net.ParseIP\<close>,
  \<^verbatim>\<open>net.ParseCIDR\<close> and \<^verbatim>\<open>IPNet.Contains\<close>. They are translated here from the
  library's source, loop by loop. An \<^verbatim>\<open>IP\<close> and an \<^verbatim>\<open>IPMask\<close> are byte slices;
  the nil slice is the empty list.
\<close>

type_synonym byte = "8 word"
type_synonym IP = "byte list"

definition IPv4len :: nat where "IPv4len = 4"
definition IPv6len :: nat where "IPv6len = 16"
definition big :: nat where "big = 0xFFFFFF"

definition isDigit :: "char \<Rightarrow> bool" where
  "isDigit c = ((of_char CHR ''0'' :: nat) \<le> of_char c \<and> (of_char c :: nat) \<le> of_char CHR ''9'')"

text \<open>
  \<^verbatim>\<open>dtoi\<close>: decimal to integer; the number, the characters consumed, success. The loop
  is run on the rest of the string, \<open>i\<close> counting what was consumed.
\<close>

fun dtoi_loop :: "nat \<Rightarrow> nat \<Rightarrow> string \<Rightarrow> nat \<times> nat \<times> bool" where
  "dtoi_loop n i [] = (if i = 0 then (0, 0, False) else (n, i, True))"
| "dtoi_loop n i (c # cs) =
     (if isDigit c
      then (let n' = n * 10 + (of_char c - of_char CHR ''0'')
            in if n' \<ge> big then (big, i, False) else dtoi_loop n' (i + 1) cs)
      else (if i = 0 then (0, 0, False) else (n, i, True)))"

definition dtoi :: "string \<Rightarrow> nat \<times> nat \<times> bool" where
  "dtoi s = dtoi_loop 0 0 s"

text \<open>The value of a hexadecimal digit, as the three branches of \<^verbatim>\<open>xtoi\<close> compute it.\<close>

definition hexDigit :: "char \<Rightarrow> nat option" where
  "hexDigit c =
     (if (of_char CHR ''0'' :: nat) \<le> of_char c \<and> (of_char c :: nat) \<le> of_char CHR ''9''
      then Some (of_char c - of_char CHR ''0'')
      else if (of_char CHR ''a'' :: nat) \<le> of_char c \<and> (of_char c :: nat) \<le> of_char CHR ''f''
      then Some (of_char c - of_char CHR ''a'' + 10)
      else if (of_char CHR ''A'' :: nat) \<le> of_char c \<and> (of_char c :: nat) \<le> of_char CHR ''F''
      then Some (of_char c - of_char CHR ''A'' + 10)
      else None)"

fun xtoi_loop :: "nat \<Rightarrow> nat \<Rightarrow> string \<Rightarrow> nat \<times> nat \<times> bool" where
  "xtoi_loop n i [] = (if i = 0 then (0, i, False) else (n, i, True))"
| "xtoi_loop n i (c # cs) =
     (case hexDigit c of
        None \<Rightarrow> (if i = 0 then (0, i, False) else (n, i, True))
      | Some d \<Rightarrow>
          (let n' = n * 16 + d
           in if n' \<ge> big then (0, i, False) else xtoi_loop n' (i + 1) cs))"

definition xtoi :: "string \<Rightarrow> nat \<times> nat \<times> bool" where
  "xtoi s = xtoi_loop 0 0 s"

definition v4InV6Prefix :: IP where
  "v4InV6Prefix = [0, 0, 0, 0, 0, 0, 0, 0, 0, 0, 0xff, 0xff]"

definition IPv4 :: "byte \<Rightarrow> byte \<Rightarrow> byte \<Rightarrow> byte \<Rightarrow> IP" where
  "IPv4 a b c d = v4InV6Prefix @ [a, b, c, d]"

text \<open>
  \<^verbatim>\<open>parseIPv4\<close>: the loop over the four octets, with the array \<open>p\<close> and the rest \<open>s\<close>
  of the string.
\<close>

function parseIPv4_loop :: "nat \<Rightarrow> byte list \<Rightarrow> string \<Rightarrow> (byte list \<times> string) option" where
  "parseIPv4_loop i p s =
     (if i < IPv4len
      then (if s = [] then None
            else (case (if i > 0 then (if hd s \<noteq> CHR ''.'' then None else Some (tl s)) else Some s) of
                    None \<Rightarrow> None
                  | Some s1 \<Rightarrow>
                      (case dtoi s1 of
                         (n, c, ok) \<Rightarrow>
                           if \<not> ok \<or> n > 0xFF then None
                           else parseIPv4_loop (i + 1) (p[i := of_nat n]) (drop c s1))))
      else Some (p, s))"
  by pat_completeness auto
termination
  by (relation "measure (\<lambda>(i, p, s). IPv4len - i)") (simp_all add: IPv4len_def)

declare parseIPv4_loop.simps [simp del]

definition parseIPv4 :: "string \<Rightarrow> IP option" where
  "parseIPv4 s =
     (case parseIPv4_loop 0 (replicate IPv4len 0) s of
        None \<Rightarrow> None
      | Some (p, r) \<Rightarrow> if r \<noteq> [] then None else Some (IPv4 (p ! 0) (p ! 1) (p ! 2) (p ! 3)))"

text \<open>
  \<^verbatim>\<open>parseIPv6\<close>: the loop that reads hexadecimal groups into the 16-byte array \<open>ip\<close>.
  \<open>ellipsis\<close> is the position of \<^verbatim>\<open>::\<close> in the array, \<open>-1\<close> when there is none; \<open>i\<close> is
  the write position. The result is the state after the loop.
\<close>

function parseIPv6_loop :: "IP \<Rightarrow> int \<Rightarrow> nat \<Rightarrow> string \<Rightarrow> (IP \<times> int \<times> nat \<times> string) option" where
  "parseIPv6_loop ip ellipsis i s =
     (if i < IPv6len
      then (case xtoi s of
              (n, c, ok) \<Rightarrow>
                if \<not> ok \<or> n > 0xFFFF then None
                else if c < length s \<and> s ! c = CHR ''.''
                then (if ellipsis < 0 \<and> i \<noteq> IPv6len - IPv4len then None
                      else if i + IPv4len > IPv6len then None
                      else (case parseIPv4 s of
                              None \<Rightarrow> None
                            | Some ip4 \<Rightarrow>
                                Some (ip[i := ip4 ! 12, i + 1 := ip4 ! 13,
                                         i + 2 := ip4 ! 14, i + 3 := ip4 ! 15],
                                      ellipsis, i + IPv4len, [])))
                else (let ip' = ip[i := of_nat (drop_bit 8 n), i + 1 := of_nat n];
                          i' = i + 2;
                          s1 = drop c s
                      in if s1 = [] then Some (ip', ellipsis, i', s1)
                         else if hd s1 \<noteq> CHR '':'' \<or> length s1 = 1 then None
                         else (let s2 = tl s1
                               in if hd s2 = CHR '':''
                                  then (if ellipsis \<ge> 0 then None
                                        else (let s3 = tl s2
                                              in if s3 = [] then Some (ip', int i', i', s3)
                                                 else parseIPv6_loop ip' (int i') i' s3))
                                  else parseIPv6_loop ip' ellipsis i' s2)))
      else Some (ip, ellipsis, i, s))"
  by pat_completeness auto
termination
  by (relation "measure (\<lambda>(ip, ellipsis, i, s). IPv6len - i)") (simp_all add: IPv6len_def)

declare parseIPv6_loop.simps [simp del]

text \<open>
  The expansion of the ellipsis: the two downward loops that move the groups after
  \<^verbatim>\<open>::\<close> to the end of the array and zero the gap.
\<close>

definition expandEllipsis :: "IP \<Rightarrow> nat \<Rightarrow> nat \<Rightarrow> IP" where
  "expandEllipsis ip ellipsis i =
     (let n = IPv6len - i;
          ip1 = fold (\<lambda>j a. a[j + n := a ! j]) (rev [ellipsis..<i]) ip
      in fold (\<lambda>j a. a[j := 0]) (rev [ellipsis..<ellipsis + n]) ip1)"

definition parseIPv6 :: "string \<Rightarrow> IP option" where
  "parseIPv6 s0 =
     (let ip = replicate IPv6len 0;
          leading = (length s0 \<ge> 2 \<and> s0 ! 0 = CHR '':'' \<and> s0 ! 1 = CHR '':'');
          ellipsis = (if leading then 0 else -1);
          s = (if leading then drop 2 s0 else s0)
      in if leading \<and> s = [] then Some ip
         else (case parseIPv6_loop ip ellipsis 0 s of
                 None \<Rightarrow> None
               | Some (ip', ellipsis', i, r) \<Rightarrow>
                   if r \<noteq> [] then None
                   else if i < IPv6len
                   then (if ellipsis' < 0 then None
                         else Some (expandEllipsis ip' (nat ellipsis') i))
                   else if ellipsis' \<ge> 0 then None
                   else Some ip'))"

text \<open>\<^verbatim>\<open>ParseIP\<close>: the first dot or colon of the string decides which parser runs.\<close>

fun ParseIP_scan :: "string \<Rightarrow> string \<Rightarrow> IP option" where
  "ParseIP_scan s [] = None"
| "ParseIP_scan s (c # cs) =
     (if c = CHR ''.'' then parseIPv4 s
      else if c = CHR '':'' then parseIPv6 s
      else ParseIP_scan s cs)"

definition ParseIP :: "string \<Rightarrow> IP option" where
  "ParseIP s = ParseIP_scan s s"

fun CIDRMask_loop :: "nat \<Rightarrow> nat \<Rightarrow> IP" where
  "CIDRMask_loop 0 n = []"
| "CIDRMask_loop (Suc l) n =
     (if n \<ge> 8 then 0xff # CIDRMask_loop l (n - 8)
      else NOT (drop_bit n (0xff :: byte)) # CIDRMask_loop l 0)"

definition CIDRMask :: "nat \<Rightarrow> nat \<Rightarrow> IP" where
  "CIDRMask ones bits =
     (if bits \<noteq> 8 * IPv4len \<and> bits \<noteq> 8 * IPv6len then []
      else if ones > bits then []
      else CIDRMask_loop (bits div 8) ones)"

definition allFF :: "byte list \<Rightarrow> bool" where
  "allFF b = list_all (\<lambda>c. c = 0xff) b"

definition isZeros :: "byte list \<Rightarrow> bool" where
  "isZeros p = list_all (\<lambda>c. c = 0) p"

text \<open>\<^verbatim>\<open>IP.Mask\<close>; the result \<open>[]\<close> is nil.\<close>

definition IP_Mask :: "IP \<Rightarrow> IP \<Rightarrow> IP" where
  "IP_Mask ip0 mask0 =
     (let mask = (if length mask0 = IPv6len \<and> length ip0 = IPv4len \<and> allFF (take 12 mask0)
                  then drop 12 mask0 else mask0);
          ip = (if length mask = IPv4len \<and> length ip0 = IPv6len \<and> take 12 ip0 = v4InV6Prefix
                then drop 12 ip0 else ip0)
      in if length ip \<noteq> length mask then []
         else map (\<lambda>(a, b). a AND b) (zip ip mask))"

text \<open>\<^verbatim>\<open>IP.To4\<close>; \<open>None\<close> is the nil result.\<close>

definition To4 :: "IP \<Rightarrow> IP option" where
  "To4 ip =
     (if length ip = IPv4len then Some ip
      else if length ip = IPv6len \<and> isZeros (take 10 ip) \<and> ip ! 10 = 0xff \<and> ip ! 11 = 0xff
      then Some (take 4 (drop 12 ip))
      else None)"

record IPNet =
  IPNet_IP :: IP
  IPNet_Mask :: IP

definition networkNumberAndMask :: "IPNet \<Rightarrow> IP \<times> IP" where
  "networkNumberAndMask n =
     (case (case To4 (IPNet_IP n) of
              Some ip \<Rightarrow> Some ip
            | None \<Rightarrow> if length (IPNet_IP n) \<noteq> IPv6len then None else Some (IPNet_IP n)) of
        None \<Rightarrow> ([], [])
      | Some ip \<Rightarrow>
          (let m = IPNet_Mask n
           in if length m = IPv4len then (if length ip \<noteq> IPv4len then ([], []) else (ip, m))
              else if length m = IPv6len then (if length ip = IPv4len then (ip, drop 12 m) else (ip, m))
              else ([], [])))"

text \<open>
  \<^verbatim>\<open>IPNet.Contains\<close>. The source compares \<^verbatim>\<open>nn[i]&m[i]\<close> with \<^verbatim>\<open>ip[i]&m[i]\<close> for
  every index; the network number and its mask have the same length, so this is the
  equality of the two masked lists.
\<close>

definition Contains :: "IPNet \<Rightarrow> IP \<Rightarrow> bool" where
  "Contains n ip0 =
     (case networkNumberAndMask n of
        (nn, m) \<Rightarrow>
          (let ip = (case To4 ip0 of Some x \<Rightarrow> x | None \<Rightarrow> ip0)
           in if length ip \<noteq> length nn then False
              else map (\<lambda>(a, b). a AND b) (zip nn m) = map (\<lambda>(a, b). a AND b) (zip ip m)))"

text \<open>
  \<^verbatim>\<open>ParseCIDR\<close>: the address before the first slash is tried as IPv4, then as IPv6; the
  prefix length after the slash must be a decimal number within the address length.
\<close>

definition ParseCIDR :: "string \<Rightarrow> (IP \<times> IPNet) option" where
  "ParseCIDR s =
     (if CHR ''/'' \<notin> set s then None
      else (let addr = takeWhile (\<lambda>c. c \<noteq> CHR ''/'') s;
                mask = tl (dropWhile (\<lambda>c. c \<noteq> CHR ''/'') s);
                (iplen, ip) = (case parseIPv4 addr of
                                 Some ip4 \<Rightarrow> (IPv4len, Some ip4)
                               | None \<Rightarrow> (IPv6len, parseIPv6 addr))
            in (case dtoi mask of
                  (n, i, ok) \<Rightarrow>
                    (case ip of
                       None \<Rightarrow> None
                     | Some ip' \<Rightarrow>
                         if \<not> ok \<or> i \<noteq> length mask \<or> n > 8 * iplen then None
                         else (let m = CIDRMask n (8 * iplen)
                               in Some (ip', \<lparr>IPNet_IP = IP_Mask ip' m, IPNet_Mask = m\<rparr>))))))"

section \<open>Package helpers: targets\<close>

definition reservedIPV4s :: "string list" where
  "reservedIPV4s =
     [''0.0.0.0/8'', ''10.0.0.0/8'', ''100.64.0.0/10'', ''127.0.0.0/8'', ''169.254.0.0/16'',
      ''172.16.0.0/12'', ''192.0.0.0/24'', ''192.0.2.0/24'', ''192.88.99.0/24'',
      ''192.168.0.0/16'', ''198.18.0.0/15'', ''198.51.100.0/24'', ''203.0.113.0/24'',
      ''224.0.0.0/4'', ''240.0.0.0/4'', ''255.255.255.255/32'']"

definition reservedIPV6s :: "string list" where
  "reservedIPV6s =
     [''::1/128'', ''64:ff9b::/96'', ''100::/64'', ''2001::/32'', ''2001:20::/28'',
      ''2001:db8::/32'', ''2002::/16'', ''fc00::/7'', ''fe80::/10'', ''ff00::/8'']"

text \<open>
  \<^verbatim>\<open>init\<close> appends the network of every reserved string, dropping the parse error. Every
  one of the strings parses (\<open>reserved_all_parse\<close> below), so no nil network is ever
  appended and \<open>map_filter\<close> leaves nothing out.
\<close>

definition NotScannableNetsIPV4 :: "IPNet list" where
  "NotScannableNetsIPV4 = List.map_filter (\<lambda>s. map_option snd (ParseCIDR s)) reservedIPV4s"

definition NotScannableNetsIPV6 :: "IPNet list" where
  "NotScannableNetsIPV6 = List.map_filter (\<lambda>s. map_option snd (ParseCIDR s)) reservedIPV6s"

definition IsIP :: "string \<Rightarrow> bool" where
  "IsIP v = (ParseIP v \<noteq> None)"

definition IsCIDR :: "string \<Rightarrow> bool" where
  "IsCIDR v = (ParseCIDR v \<noteq> None)"

text \<open>\<^verbatim>\<open>isAllowed\<close>; \<^verbatim>\<open>strings.Contains(addr, ".")\<close> is membership of the character.\<close>

definition isAllowed :: "string \<Rightarrow> bool \<times> error option" where
  "isAllowed addr =
     (let (addrCIDR, nets) =
            (if CHR ''.'' \<in> set addr
             then ((if CHR ''/'' \<notin> set addr then addr @ ''/32'' else addr), NotScannableNetsIPV4)
             else ((if CHR ''/'' \<notin> set addr then addr @ ''/128'' else addr), NotScannableNetsIPV6))
      in (case ParseCIDR addrCIDR of
            None \<Rightarrow> (False, Some (ErrorString (''error parsing the ip address '' @ addr)))
          | Some (ip, addrNet) \<Rightarrow>
              if list_ex (\<lambda>n. Contains n (IPNet_IP addrNet)) nets then (False, None)
              else (True, None)))"

fun verifyIPs :: "string list \<Rightarrow> bool" where
  "verifyIPs [] = True"
| "verifyIPs (addr # addrs) =
     (case isAllowed addr of
        (ok, err) \<Rightarrow> if err \<noteq> None \<or> \<not> ok then False else verifyIPs addrs)"

text \<open>
  What \<^verbatim>\<open>IsScannable\<close> asks of the outside: \<open>URLHostname v\<close> is the hostname of
  \<^verbatim>\<open>url.ParseRequestURI(v)\<close>, \<open>None\<close> when \<open>v\<close> does not parse as a request URI;
  \<open>LookupHost\<close> is \<^verbatim>\<open>net.LookupHost\<close>, which returns addresses and an error.
\<close>

record resolver =
  URLHostname :: "string \<Rightarrow> string option"
  LookupHost :: "string \<Rightarrow> string list \<times> error option"

definition IsScannable :: "resolver \<Rightarrow> string \<Rightarrow> bool" where
  "IsScannable env asset =
     (if IsIP asset \<or> IsCIDR asset then fst (isAllowed asset)
      else (let asset' = (case URLHostname env asset of Some h \<Rightarrow> h | None \<Rightarrow> asset);
                (addrs, err) = LookupHost env asset'
            in verifyIPs addrs))"


text \<open>An environment in which nothing resolves and nothing is a URL.\<close>

definition noResolver :: resolver where
  "noResolver =
     \<lparr>URLHostname = (\<lambda>v. None),
      LookupHost = (\<lambda>h. ([], Some (ErrorString ''no such host'')))\<rparr>"

section \<open>Package agent: the state sent to the agent\<close>

definition StatusRunning :: string where "StatusRunning = ''RUNNING''"
definition StatusFinished :: string where "StatusFinished = ''FINISHED''"
definition StatusAborted :: string where "StatusAborted = ''ABORTED''"
definition StatusFailed :: string where "StatusFailed = ''FAILED''"

text \<open>
  The fields of \<^verbatim>\<open>vulcanreport.Report\<close> that the state type writes. Times are abstract
  clock readings.
\<close>

record Report =
  Report_Status :: string
  Report_Error :: string
  StartTime :: nat
  EndTime :: nat

text \<open>
  \<^verbatim>\<open>agent.State\<close>. The progress is a \<^verbatim>\<open>float32\<close> in the source; the model keeps its
  type a parameter \<open>'p\<close> with an order, a zero and a one, so that nothing proved below
  uses a law of the comparison that IEEE floats (with NaN) would not have.
\<close>

record 'p agent_State =
  Status :: string
  Progress :: 'p
  Report :: Report

section \<open>Package push: the check state (state machine)\<close>

text \<open>
  \<^verbatim>\<open>push.State\<close>. The \<^verbatim>\<open>pusher\<close> field is an interface value; it is modelled by the
  list of snapshots handed to its \<^verbatim>\<open>UpdateState\<close>, oldest first.
\<close>

record 'p State =
  state :: "'p agent_State"
  pusher :: "'p agent_State list"

definition UpdateState_rec :: "'p agent_State list \<Rightarrow> 'p agent_State \<Rightarrow> 'p agent_State list" where
  "UpdateState_rec pu s = pu @ [s]"

definition SetStartTime :: "'p State \<Rightarrow> nat \<Rightarrow> 'p State" where
  "SetStartTime p t = p\<lparr>state := (state p)\<lparr>Report := (Report (state p))\<lparr>StartTime := t\<rparr>\<rparr>\<rparr>"

definition SetEndTime :: "'p State \<Rightarrow> nat \<Rightarrow> 'p State" where
  "SetEndTime p t = p\<lparr>state := (state p)\<lparr>Report := (Report (state p))\<lparr>EndTime := t\<rparr>\<rparr>\<rparr>"

definition SetProgress :: "('p::ord) State \<Rightarrow> 'p \<Rightarrow> 'p State" where
  "SetProgress p progress =
     (if Status (state p) = StatusRunning \<and> progress > Progress (state p)
      then (let st = (state p)\<lparr>Progress := progress\<rparr>
            in p\<lparr>state := st, pusher := UpdateState_rec (pusher p) st\<rparr>)
      else p)"

definition SetStatusRunning :: "('p::zero) State \<Rightarrow> 'p State" where
  "SetStatusRunning p =
     (let st = (state p)\<lparr>Status := StatusRunning, Progress := 0,
                 Report := (Report (state p))\<lparr>Report_Status := StatusRunning\<rparr>\<rparr>
      in p\<lparr>state := st, pusher := UpdateState_rec (pusher p) st\<rparr>)"

definition SetStatusAborted :: "('p::one) State \<Rightarrow> 'p State" where
  "SetStatusAborted p =
     (let st = (state p)\<lparr>Status := StatusAborted, Progress := 1,
                 Report := (Report (state p))\<lparr>Report_Status := StatusAborted\<rparr>\<rparr>
      in p\<lparr>state := st, pusher := UpdateState_rec (pusher p) st\<rparr>)"

definition SetStatusFinished :: "('p::one) State \<Rightarrow> 'p State" where
  "SetStatusFinished p =
     (let st = (state p)\<lparr>Status := StatusFinished, Progress := 1,
                 Report := (Report (state p))\<lparr>Report_Status := StatusFinished\<rparr>\<rparr>
      in p\<lparr>state := st, pusher := UpdateState_rec (pusher p) st\<rparr>)"

definition SetStatusFailed :: "('p::one) State \<Rightarrow> error \<Rightarrow> 'p State" where
  "SetStatusFailed p err =
     (let st = (state p)\<lparr>Status := StatusFailed, Progress := 1,
                 Report := (Report (state p))\<lparr>Report_Error := Error err,
                                               Report_Status := StatusFailed\<rparr>\<rparr>
      in p\<lparr>state := st, pusher := UpdateState_rec (pusher p) st\<rparr>)"

section \<open>Package push: running the check body\<close>

text \<open>
  The part of the configuration \<^verbatim>\<open>executeChecker\<close> reads. \<^verbatim>\<open>AllowPrivateIPs\<close> is a
  \<^verbatim>\<open>*bool\<close>.
\<close>

record Config =
  AllowPrivateIPs :: "bool option"
  Check_Target :: string
  Check_Opts :: string

definition ptrToBool :: "bool option \<Rightarrow> bool" where
  "ptrToBool b = (case b of Some v \<Rightarrow> v | None \<Rightarrow> False)"

text \<open>
  The check body (\<^verbatim>\<open>Checker.Run\<close>) is handed the check state only as a
  \<^verbatim>\<open>ProgressReporter\<close>: all it can do to the state is call \<^verbatim>\<open>SetProgress\<close>. A body is
  therefore the list of progress values it reports, in order, and the error it returns.
\<close>

record 'p Checker =
  Run_reports :: "'p list"
  Run_returns :: "error option"

record 'p Check =
  config :: Config
  checkState :: "'p State"
  checker :: "'p Checker"
  cleanUps :: nat

text \<open>
  \<^verbatim>\<open>executeChecker\<close>. \<open>env\<close> is the environment \<^verbatim>\<open>helpers.IsScannable\<close> resolves
  names in, \<open>now\<close> the clock reading passed to \<^verbatim>\<open>SetEndTime\<close>. Logging has no effect
  on the state and is left out.
\<close>

definition executeChecker :: "resolver \<Rightarrow> nat \<Rightarrow> ('p::{ord,zero,one}) Check \<Rightarrow> 'p Check" where
  "executeChecker env now c =
     (let (err, c1) =
            (if ptrToBool (AllowPrivateIPs (config c)) \<or> IsScannable env (Check_Target (config c))
             then (Run_returns (checker c),
                   c\<lparr>checkState := foldl SetProgress (checkState c) (Run_reports (checker c)),
                     cleanUps := cleanUps c + 1\<rparr>)
             else (Some (ErrorString ''target is not scannable''), c));
          c2 = c1\<lparr>checkState := SetEndTime (checkState c1) now\<rparr>
      in (case err of
            Some e \<Rightarrow>
              (if e = Canceled
               then c2\<lparr>checkState := SetStatusAborted (checkState c2)\<rparr>
               else c2\<lparr>checkState := SetStatusFailed (checkState c2) e\<rparr>)
          | None \<Rightarrow> c2\<lparr>checkState := SetStatusFinished (checkState c2)\<rparr>))"

section \<open>Package local: the command-line runner\<close>

text \<open>
  What the \<^verbatim>\<open>select\<close> loop of the local \<^verbatim>\<open>RunAndServe\<close> can receive: a termination
  signal, or the value the check body sent on \<^verbatim>\<open>done\<close> when it returned.
\<close>

datatype select_event = ExitSignalEv | DoneEv "error option"

text \<open>
  The loop. \<open>sigOpen\<close> is false once \<^verbatim>\<open>c.exitSignal\<close> has been set to \<^verbatim>\<open>nil\<close>: a
  receive from a nil channel never fires, so later signals are not received. The result is
  the number of calls of \<^verbatim>\<open>c.cancel\<close> and what was received from \<^verbatim>\<open>done\<close>; with no
  event left the \<^verbatim>\<open>select\<close> blocks for ever and nothing was received: \<open>None\<close>.
\<close>

fun serveLoop :: "bool \<Rightarrow> nat \<Rightarrow> select_event list \<Rightarrow> nat \<times> error option option" where
  "serveLoop sigOpen cancels [] = (cancels, None)"
| "serveLoop sigOpen cancels (ExitSignalEv # evs) =
     (if sigOpen then serveLoop False (cancels + 1) evs else serveLoop sigOpen cancels evs)"
| "serveLoop sigOpen cancels (DoneEv err # evs) = (cancels, Some err)"

text \<open>
  How a run of the local runner ends: the process exits with a status, or a callee
  panicked (the result formatters panic when they cannot write), or the loop never ends.
\<close>

datatype run_end = Exited int | Panicked | Blocked

record local_run =
  cancel_calls :: nat
  cleanUp_calls :: nat
  formatted :: "error option list"
  ending :: run_end

text \<open>
  The local \<^verbatim>\<open>RunAndServe\<close>. \<open>fmt_ok\<close> says whether \<^verbatim>\<open>c.formatter.result\<close> returns
  (its implementations panic on a failed write).
\<close>

definition RunAndServe_local :: "bool \<Rightarrow> select_event list \<Rightarrow> local_run" where
  "RunAndServe_local fmt_ok evs =
     (case serveLoop True 0 evs of
        (n, None) \<Rightarrow>
          \<lparr>cancel_calls = n, cleanUp_calls = 0, formatted = [], ending = Blocked\<rparr>
      | (n, Some err) \<Rightarrow>
          (if \<not> fmt_ok
           then \<lparr>cancel_calls = n, cleanUp_calls = 1, formatted = [err], ending = Panicked\<rparr>
           else if err \<noteq> None
           then \<lparr>cancel_calls = n, cleanUp_calls = 1, formatted = [err], ending = Exited 0\<rparr>
           else \<lparr>cancel_calls = n, cleanUp_calls = 1, formatted = [err], ending = Exited 1\<rparr>))"

section \<open>Package rest: sending one snapshot\<close>

datatype level = DebugLevel | InfoLevel | WarnLevel | ErrorLevel

text \<open>
  What the pusher does to the outside, in order: a log entry, a PATCH request for a check
  id with a body, and the two ways a Go process is ended from inside.
\<close>

datatype 'm effect = Log level string | Patch string 'm | OsExit int | Panic string

fun is_fatal :: "'m effect \<Rightarrow> bool" where
  "is_fatal (OsExit n) = True"
| "is_fatal (Panic s) = True"
| "is_fatal (Log l s) = False"
| "is_fatal (Patch i m) = False"

text \<open>
  What \<^verbatim>\<open>r.Patch(id)\<close> returns: a transport error, or a response with its status code.
\<close>

datatype patch_result = TransportError string | Response nat

fun delivery_failed :: "patch_result \<Rightarrow> bool" where
  "delivery_failed (TransportError e) = True"
| "delivery_failed (Response code) = (code \<noteq> 200)"

record 'm pusherMsg =
  msg_id :: string
  msg_body :: 'm

definition retry :: "'m effect list" where
  "retry = []"

text \<open>
  \<^verbatim>\<open>sendPushMsg\<close>; \<open>res\<close> is what the PATCH request returned.
\<close>

definition sendPushMsg :: "'m \<Rightarrow> string \<Rightarrow> patch_result \<Rightarrow> 'm effect list" where
  "sendPushMsg m i res =
     Patch i m #
     (case res of
        TransportError e \<Rightarrow> Log ErrorLevel ''Error sending message to agent'' # retry
      | Response code \<Rightarrow>
          (if code \<noteq> 200
           then Log ErrorLevel ''Error sending message to agent'' # retry
           else [Log DebugLevel ''Message sent to the agent'']))"

text \<open>
  The body of the sender goroutine run on the messages it receives from the channel, each
  paired with the result of its PATCH request.
\<close>

fun goPusher_range :: "('m pusherMsg \<times> patch_result) list \<Rightarrow> 'm effect list" where
  "goPusher_range [] = []"
| "goPusher_range ((pm, res) # rest) =
     Log DebugLevel ''Sending message'' # sendPushMsg (msg_body pm) (msg_id pm) res
       @ goPusher_range rest"

section \<open>Package helpers: hostnames and domain names\<close>

definition noSuchHostErrorToken :: string where
  "noSuchHostErrorToken = ''no such host''"

text \<open>\<^verbatim>\<open>strings.Contains\<close>: \<open>substr\<close> occurs in the string at some position.\<close>

fun strings_Contains :: "string \<Rightarrow> string \<Rightarrow> bool" where
  "strings_Contains [] substr = (substr = [])"
| "strings_Contains (c # cs) substr =
     (take (length substr) (c # cs) = substr \<or> strings_Contains cs substr)"

text \<open>
  The parts of \<^verbatim>\<open>github.com/miekg/dns\<close> that \<^verbatim>\<open>hasSOARecord\<close> reads: the resolver
  configuration, and of a response its code and the headers of its answer records.
\<close>

record ClientConfig =
  Servers :: "string list"
  Port :: string

record RR_Header =
  Name :: string
  Rrtype :: nat

record dns_Msg =
  Rcode :: nat
  Answer :: "RR_Header list"

definition TypeSOA :: nat where "TypeSOA = 6"
definition RcodeSuccess :: nat where "RcodeSuccess = 0"

text \<open>
  The outside of the classifier: \<^verbatim>\<open>net.LookupIP\<close>, which returns addresses and an
  error; \<^verbatim>\<open>dns.ClientConfigFromFile\<close> on the resolver configuration file; and
  \<^verbatim>\<open>Client.Exchange\<close> of an SOA question for a name with a server address, which
  returns an error or a response.
\<close>

record dns_env =
  LookupIP :: "string \<Rightarrow> IP list \<times> error option"
  ClientConfigFromFile :: "error + ClientConfig"
  Exchange :: "string \<Rightarrow> string \<Rightarrow> error + dns_Msg"

text \<open>
  The state the classifier shares with the outside: the package variable \<^verbatim>\<open>dnsConf\<close>
  (\<open>None\<close> is nil), and the queries issued so far, oldest first: the name of every forward
  lookup and the server address of every exchange.
\<close>

record dns_world =
  dnsConf :: "ClientConfig option"
  queries :: "string list"

record Target =
  Value :: string
  hostname :: "bool option"
  domainName :: "bool option"

text \<open>
  \<^verbatim>\<open>func (t Target) IsHostname()\<close>. The receiver is a value: \<open>t\<close> is the method's own copy
  of the target, the assignments to \<^verbatim>\<open>t.hostname\<close> change that copy (\<open>t'\<close> below), and the
  copy is gone when the method returns. The method returns its two results, and the world.
\<close>

definition IsHostname :: "dns_env \<Rightarrow> Target \<Rightarrow> dns_world \<Rightarrow> (bool \<times> error option) \<times> dns_world" where
  "IsHostname env t w =
     (case hostname t of
        Some h \<Rightarrow> ((h, None), w)
      | None \<Rightarrow>
          if IsIP (Value t)
          then (let t' = t\<lparr>hostname := Some False\<rparr> in ((the (hostname t'), None), w))
          else (let w' = w\<lparr>queries := queries w @ [Value t]\<rparr>
                in case LookupIP env (Value t) of
                     (r, Some err) \<Rightarrow>
                       if strings_Contains (Error err) noSuchHostErrorToken
                       then ((False, None), w')
                       else ((False, Some err), w')
                   | (r, None) \<Rightarrow>
                       (let t' = t\<lparr>hostname := Some (length r > 0)\<rparr>
                        in ((the (hostname t'), None), w'))))"

fun soaHeaderForName :: "dns_Msg \<Rightarrow> string \<Rightarrow> bool" where
  "soaHeaderForName r name = list_ex (\<lambda>h. Name h = name \<and> Rrtype h = TypeSOA) (Answer r)"

text \<open>
  The loop of \<^verbatim>\<open>hasSOARecord\<close> over the configured servers, with the response \<open>r\<close> held
  so far and the world. An exchange that succeeds returns a response (never nil).
\<close>

fun exchange_loop ::
  "(string \<Rightarrow> error + dns_Msg) \<Rightarrow> string \<Rightarrow> string list \<Rightarrow> dns_Msg option \<Rightarrow> dns_world
     \<Rightarrow> (error + dns_Msg option) \<times> dns_world" where
  "exchange_loop ex port [] r w = (Inr r, w)"
| "exchange_loop ex port (srv # rest) r w =
     (let w' = w\<lparr>queries := queries w @ [srv @ '':'' @ port]\<rparr>
      in case ex (srv @ '':'' @ port) of
           Inl err \<Rightarrow> (Inl err, w')
         | Inr r' \<Rightarrow>
             if Rcode r' = RcodeSuccess then (Inr (Some r'), w')
             else exchange_loop ex port rest (Some r') w')"

definition hasSOARecord :: "dns_env \<Rightarrow> string \<Rightarrow> dns_world \<Rightarrow> (bool \<times> error option) \<times> dns_world" where
  "hasSOARecord env address w =
     (case (case dnsConf w of Some c \<Rightarrow> Inr c | None \<Rightarrow> ClientConfigFromFile env) of
        Inl err \<Rightarrow> ((False, Some err), w\<lparr>dnsConf := None\<rparr>)
      | Inr conf \<Rightarrow>
          (let address' = address @ ''.''
           in case exchange_loop (Exchange env address') (Port conf) (Servers conf) None
                     (w\<lparr>dnsConf := Some conf\<rparr>) of
                (Inl err, w') \<Rightarrow> ((False, Some err), w')
              | (Inr None, w') \<Rightarrow> ((False, Some ErrFailedToGetDNSAnswer), w')
              | (Inr (Some r), w') \<Rightarrow> ((soaHeaderForName r address', None), w')))"

definition IsDomainName :: "dns_env \<Rightarrow> string \<Rightarrow> dns_world \<Rightarrow> (bool \<times> error option) \<times> dns_world" where
  "IsDomainName env asset w = hasSOARecord env asset w"

text \<open>\<^verbatim>\<open>func (t Target) IsDomainName()\<close>, again with a value receiver.\<close>

definition Target_IsDomainName ::
  "dns_env \<Rightarrow> Target \<Rightarrow> dns_world \<Rightarrow> (bool \<times> error option) \<times> dns_world" where
  "Target_IsDomainName env t w =
     (case domainName t of
        Some d \<Rightarrow> ((d, None), w)
      | None \<Rightarrow>
          if IsIP (Value t) then ((False, None), w)
          else (case IsDomainName env (Value t) w of
                  ((is, Some err), w') \<Rightarrow> ((False, Some err), w')
                | ((is, None), w') \<Rightarrow>
                    (let t' = t\<lparr>domainName := Some is\<rparr>
                     in ((the (domainName t'), None), w'))))"

text \<open>
  A world with nothing cached and nothing asked, and an environment in which
  \<^verbatim>\<open>example.com\<close> resolves and has an SOA record, and any other name does not exist.
\<close>

definition world0 :: dns_world where
  "world0 = \<lparr>dnsConf = None, queries = []\<rparr>"

definition exampleDNS :: dns_env where
  "exampleDNS =
     \<lparr>LookupIP = (\<lambda>h. if h = ''example.com'' then ([[93, 184, 216, 34]], None)
                       else ([], Some (ErrorString (''lookup '' @ h @ '': no such host'')))),
      ClientConfigFromFile = Inr \<lparr>Servers = [''10.0.0.53'', ''10.0.0.54''], Port = ''53''\<rparr>,
      Exchange = (\<lambda>name srv.
        if name = ''example.com.''
        then Inr \<lparr>Rcode = 0, Answer = [\<lparr>Name = ''example.com.'', Rrtype = 6\<rparr>]\<rparr>
        else Inr \<lparr>Rcode = 3, Answer = []\<rparr>)\<rparr>"

section \<open>Package check: the process harness\<close>

text \<open>
  \<^verbatim>\<open>ProcessCheck.Run\<close> runs two goroutines: \<^verbatim>\<open>Run\<close> itself and \<^verbatim>\<open>readAndProcess\<close>, which
  meet on the unbuffered channel \<^verbatim>\<open>done\<close>. The model is the interleaving of their steps.
  Where each of them stands:
\<close>

datatype run_pc =
    AtEntry       \<comment> \<open>before the pipes are made\<close>
  | Spawned       \<comment> \<open>after \<^verbatim>\<open>go p.readAndProcess(...)\<close>, before \<^verbatim>\<open>p.cmd.Start()\<close>\<close>
  | Started       \<comment> \<open>after \<^verbatim>\<open>p.cmd.Start()\<close>, before \<^verbatim>\<open>ioutil.ReadAll(p.stderr)\<close>\<close>
  | AtDone        \<comment> \<open>at \<^verbatim>\<open><-done\<close>\<close>
  | AtWait        \<comment> \<open>after \<^verbatim>\<open><-done\<close>, before \<^verbatim>\<open>p.cmd.Wait()\<close>\<close>
  | Returned

datatype reader_pc =
    NotStarted
  | Scanning      \<comment> \<open>in the loop \<^verbatim>\<open>for scanner.Scan()\<close>\<close>
  | Deferred      \<comment> \<open>out of the loop, in the deferred function at \<^verbatim>\<open>done <- true\<close>\<close>
  | ReaderExited

text \<open>
  What the operating system answers to \<^verbatim>\<open>Run\<close>: the errors of the two pipes and of the
  start, and what \<^verbatim>\<open>Wait\<close> leaves: the process state (its exit status) and an error.
\<close>

record os_env =
  StdoutPipe_err :: "error option"
  StderrPipe_err :: "error option"
  Start_err :: "error option"
  Wait_state :: "int option"
  Wait_err :: "error option"

text \<open>
  The state of a run. \<open>scanner\<close> holds what the scanner has still to yield: each chunk with
  the answer of \<^verbatim>\<open>ctx.Err() != nil\<close> at the moment the chunk is read. \<open>delivered\<close> holds the
  chunks handed to \<^verbatim>\<open>ProcessOutputChunk\<close>, oldest first, each with the boolean it returned.
  \<open>checker_state\<close> is the state of the checker behind the processor, \<open>returned\<close> what \<^verbatim>\<open>Run\<close>
  returned (process state and error) once it has.
\<close>

record ('c, 's) harness =
  run_at :: run_pc
  reader_at :: reader_pc
  scanner :: "('c \<times> bool) list"
  delivered :: "('c \<times> bool) list"
  checker_state :: 's
  returned :: "(int option \<times> error option) option"

definition harness0 :: "('c \<times> bool) list \<Rightarrow> 's \<Rightarrow> ('c, 's) harness" where
  "harness0 chunks st =
     \<lparr>run_at = AtEntry, reader_at = NotStarted, scanner = chunks, delivered = [],
      checker_state = st, returned = None\<rparr>"

text \<open>
  One step of \<^verbatim>\<open>Run\<close>; \<open>None\<close> when it cannot move. The receive from \<^verbatim>\<open>done\<close> needs the
  reader at its send; the two then move together.
\<close>

definition Run_step :: "os_env \<Rightarrow> ('c, 's) harness \<Rightarrow> ('c, 's) harness option" where
  "Run_step env h =
     (case run_at h of
        AtEntry \<Rightarrow>
          (if StdoutPipe_err env \<noteq> None
           then Some (h\<lparr>run_at := Returned, returned := Some (None, StdoutPipe_err env)\<rparr>)
           else if StderrPipe_err env \<noteq> None
           then Some (h\<lparr>run_at := Returned, returned := Some (None, StderrPipe_err env)\<rparr>)
           else Some (h\<lparr>run_at := Spawned, reader_at := Scanning\<rparr>))
      | Spawned \<Rightarrow> Some (h\<lparr>run_at := Started\<rparr>)
      | Started \<Rightarrow> Some (h\<lparr>run_at := AtDone\<rparr>)
      | AtDone \<Rightarrow>
          (if reader_at h = Deferred
           then Some (h\<lparr>run_at := AtWait, reader_at := ReaderExited\<rparr>)
           else None)
      | AtWait \<Rightarrow> Some (h\<lparr>run_at := Returned, returned := Some (Wait_state env, Wait_err env)\<rparr>)
      | Returned \<Rightarrow> None)"

text \<open>
  One step of \<^verbatim>\<open>readAndProcess\<close>: one turn of the loop. \<open>process\<close> is
  \<^verbatim>\<open>ProcessOutputChunk\<close>, from the checker's state and a chunk to the boolean and the new
  state.
\<close>

definition readAndProcess_step ::
  "('s \<Rightarrow> 'c \<Rightarrow> bool \<times> 's) \<Rightarrow> ('c, 's) harness \<Rightarrow> ('c, 's) harness option" where
  "readAndProcess_step process h =
     (case reader_at h of
        Scanning \<Rightarrow>
          (case scanner h of
             [] \<Rightarrow> Some (h\<lparr>reader_at := Deferred\<rparr>)
           | (payload, cancelled) # rest \<Rightarrow>
               if cancelled then Some (h\<lparr>reader_at := Deferred, scanner := rest\<rparr>)
               else (case process (checker_state h) payload of
                       (cont, st') \<Rightarrow>
                         Some (h\<lparr>reader_at := (if \<not> cont then Deferred else Scanning),
                                 scanner := rest,
                                 delivered := delivered h @ [(payload, cont)],
                                 checker_state := st'\<rparr>)))
      | NotStarted \<Rightarrow> None
      | Deferred \<Rightarrow> None
      | ReaderExited \<Rightarrow> None)"

inductive harness_step ::
  "os_env \<Rightarrow> ('s \<Rightarrow> 'c \<Rightarrow> bool \<times> 's) \<Rightarrow> ('c, 's) harness \<Rightarrow> ('c, 's) harness \<Rightarrow> bool"
  for env process where
    run: "Run_step env h = Some h' \<Longrightarrow> harness_step env process h h'"
  | reader: "readAndProcess_step process h = Some h' \<Longrightarrow> harness_step env process h h'"

definition harness_reachable ::
  "os_env \<Rightarrow> ('s \<Rightarrow> 'c \<Rightarrow> bool \<times> 's) \<Rightarrow> ('c, 's) harness \<Rightarrow> ('c, 's) harness \<Rightarrow> bool" where
  "harness_reachable env process h0 h = (harness_step env process)\<^sup>*\<^sup>* h0 h"

text \<open>A schedule says which goroutine moves next; running one is executable.\<close>

datatype goroutine = RunG | ReaderG

fun harness_exec ::
  "os_env \<Rightarrow> ('s \<Rightarrow> 'c \<Rightarrow> bool \<times> 's) \<Rightarrow> goroutine list \<Rightarrow> ('c, 's) harness
     \<Rightarrow> ('c, 's) harness option" where
  "harness_exec env process [] h = Some h"
| "harness_exec env process (RunG # gs) h =
     (case Run_step env h of None \<Rightarrow> None | Some h' \<Rightarrow> harness_exec env process gs h')"
| "harness_exec env process (ReaderG # gs) h =
     (case readAndProcess_step process h of
        None \<Rightarrow> None
      | Some h' \<Rightarrow> harness_exec env process gs h')"

text \<open>A process that starts and exits with status 0, and a processor that stops at a token.\<close>

definition okProcess :: os_env where
  "okProcess = \<lparr>StdoutPipe_err = None, StderrPipe_err = None, Start_err = None,
               Wait_state = Some 0, Wait_err = None\<rparr>"

definition untilToken :: "unit \<Rightarrow> string \<Rightarrow> bool \<times> unit" where
  "untilToken st chunk = (chunk \<noteq> ''STOP'', st)"

text \<open>
  What holds in every state of a run: where the reader can be, given where \<^verbatim>\<open>Run\<close> is;
  and what has been delivered, given where the reader is.
\<close>

definition harness_ctl :: "('c, 's) harness \<Rightarrow> bool" where
  "harness_ctl h =
     (case run_at h of
        AtEntry \<Rightarrow> reader_at h = NotStarted \<and> returned h = None
      | Spawned \<Rightarrow> (reader_at h = Scanning \<or> reader_at h = Deferred) \<and> returned h = None
      | Started \<Rightarrow> (reader_at h = Scanning \<or> reader_at h = Deferred) \<and> returned h = None
      | AtDone \<Rightarrow> (reader_at h = Scanning \<or> reader_at h = Deferred) \<and> returned h = None
      | AtWait \<Rightarrow> reader_at h = ReaderExited \<and> returned h = None
      | Returned \<Rightarrow>
          (reader_at h = ReaderExited \<and> returned h \<noteq> None) \<or>
          (reader_at h = NotStarted \<and> (\<exists>e. returned h = Some (None, Some e))))"

definition harness_data :: "('c \<times> bool) list \<Rightarrow> ('c, 's) harness \<Rightarrow> bool" where
  "harness_data chunks h =
     ((reader_at h = NotStarted \<or> reader_at h = Scanning \<longrightarrow>
         map fst chunks = map fst (delivered h) @ map fst (scanner h) \<and>
         list_all snd (delivered h)) \<and>
      (\<exists>rest. map fst chunks = map fst (delivered h) @ rest) \<and>
      list_all snd (butlast (delivered h)))"


section \<open>Package rest: the queue and its two goroutines\<close>









text \<open>
  Where the sender stands: before its first log entry; at the head of \<^verbatim>\<open>for msg := range c\<close>;
  inside the loop with a message taken from the channel; or returned.
\<close>

datatype 'm sender_pc = SenderStarting | AtRange | Sending "'m pusherMsg" | SenderDone
















chapter \<open>Results\<close>

section \<open>The check state machine\<close>

text \<open>
  C4. \<^verbatim>\<open>SetProgress\<close> called when the status is not running, or with a progress that is
  not greater than the current one, returns the state as it was (same fields, same list of
  pushed snapshots). Called when the status is running with a greater progress, it stores
  the progress, changes nothing else, and hands exactly one snapshot, the new state, to
  the pusher.
\<close>

theorem SetProgress_guard:
  "(Status (state p) \<noteq> StatusRunning \<or> \<not> progress > Progress (state p)
      \<longrightarrow> SetProgress p progress = p) \<and>
   (Status (state p) = StatusRunning \<and> progress > Progress (state p)
      \<longrightarrow> state (SetProgress p progress) = (state p)\<lparr>Progress := progress\<rparr> \<and>
          Progress (state (SetProgress p progress)) = progress \<and>
          pusher (SetProgress p progress) = pusher p @ [(state p)\<lparr>Progress := progress\<rparr>] \<and>
          length (pusher (SetProgress p progress)) = length (pusher p) + 1)"
  by (auto simp: SetProgress_def UpdateState_rec_def Let_def)

theorem SetProgress_guard_witness:
  "SetProgress \<lparr>state = \<lparr>Status = StatusRunning, Progress = (1/2 :: real),
        Report = \<lparr>Report_Status = StatusRunning, Report_Error = [], StartTime = 0, EndTime = 0\<rparr>\<rparr>,
      pusher = []\<rparr> (3/10)
   = \<lparr>state = \<lparr>Status = StatusRunning, Progress = (1/2 :: real),
        Report = \<lparr>Report_Status = StatusRunning, Report_Error = [], StartTime = 0, EndTime = 0\<rparr>\<rparr>,
      pusher = []\<rparr> \<and>
   pusher (SetProgress \<lparr>state = \<lparr>Status = StatusRunning, Progress = (1/2 :: real),
        Report = \<lparr>Report_Status = StatusRunning, Report_Error = [], StartTime = 0, EndTime = 0\<rparr>\<rparr>,
      pusher = []\<rparr> (7/10))
   = [\<lparr>Status = StatusRunning, Progress = (7/10 :: real),
        Report = \<lparr>Report_Status = StatusRunning, Report_Error = [], StartTime = 0, EndTime = 0\<rparr>\<rparr>] \<and>
   SetProgress \<lparr>state = \<lparr>Status = StatusFinished, Progress = (1/2 :: real),
        Report = \<lparr>Report_Status = StatusFinished, Report_Error = [], StartTime = 0, EndTime = 0\<rparr>\<rparr>,
      pusher = []\<rparr> (7/10)
   = \<lparr>state = \<lparr>Status = StatusFinished, Progress = (1/2 :: real),
        Report = \<lparr>Report_Status = StatusFinished, Report_Error = [], StartTime = 0, EndTime = 0\<rparr>\<rparr>,
      pusher = []\<rparr>"
  using
    SetProgress_guard [of "\<lparr>state = \<lparr>Status = StatusRunning, Progress = (1/2 :: real),
        Report = \<lparr>Report_Status = StatusRunning, Report_Error = [], StartTime = 0, EndTime = 0\<rparr>\<rparr>,
      pusher = []\<rparr>" "3/10"]
    SetProgress_guard [of "\<lparr>state = \<lparr>Status = StatusRunning, Progress = (1/2 :: real),
        Report = \<lparr>Report_Status = StatusRunning, Report_Error = [], StartTime = 0, EndTime = 0\<rparr>\<rparr>,
      pusher = []\<rparr>" "7/10"]
    SetProgress_guard [of "\<lparr>state = \<lparr>Status = StatusFinished, Progress = (1/2 :: real),
        Report = \<lparr>Report_Status = StatusFinished, Report_Error = [], StartTime = 0, EndTime = 0\<rparr>\<rparr>,
      pusher = []\<rparr>" "7/10"]
  by (simp add: StatusRunning_def StatusFinished_def)

section \<open>The error of the check body\<close>

lemma executeChecker_ran:
  assumes "ptrToBool (AllowPrivateIPs (config c)) \<or> IsScannable env (Check_Target (config c))"
  shows "checkState (executeChecker env now c) =
     (let st = SetEndTime (foldl SetProgress (checkState c) (Run_reports (checker c))) now
      in case Run_returns (checker c) of
           None \<Rightarrow> SetStatusFinished st
         | Some e \<Rightarrow> if e = Canceled then SetStatusAborted st else SetStatusFailed st e)"
  using assms by (simp add: executeChecker_def Let_def split: option.splits)

text \<open>
  C5. When the check body has run and returned a non-nil error, \<^verbatim>\<open>executeChecker\<close>
  ends with the abort transition if the error is \<^verbatim>\<open>context.Canceled\<close>, and with the
  fail transition on that error otherwise, both applied to the state the body left, with
  the end time set. Hence the final status is aborted exactly when the error is the
  cancellation error and failed exactly when it is not, the progress is 1, the error text
  is recorded in the failed case, and the last snapshot pushed is the final state.
\<close>

theorem executeChecker_error_transition:
  assumes "ptrToBool (AllowPrivateIPs (config c)) \<or> IsScannable env (Check_Target (config c))"
    and "Run_returns (checker c) = Some e"
  shows "(e = Canceled \<longrightarrow>
            checkState (executeChecker env now c) =
              SetStatusAborted
                (SetEndTime (foldl SetProgress (checkState c) (Run_reports (checker c))) now)) \<and>
         (e \<noteq> Canceled \<longrightarrow>
            checkState (executeChecker env now c) =
              SetStatusFailed
                (SetEndTime (foldl SetProgress (checkState c) (Run_reports (checker c))) now) e \<and>
            Report_Error (Report (state (checkState (executeChecker env now c)))) = Error e) \<and>
         (Status (state (checkState (executeChecker env now c))) = StatusAborted
            \<longleftrightarrow> e = Canceled) \<and>
         (Status (state (checkState (executeChecker env now c))) = StatusFailed
            \<longleftrightarrow> e \<noteq> Canceled) \<and>
         Progress (state (checkState (executeChecker env now c))) = 1 \<and>
         pusher (checkState (executeChecker env now c)) \<noteq> [] \<and>
         last (pusher (checkState (executeChecker env now c))) =
           state (checkState (executeChecker env now c))"
  using assms
  by (simp add: executeChecker_ran Let_def SetStatusAborted_def SetStatusFailed_def
      UpdateState_rec_def StatusAborted_def StatusFailed_def)

theorem executeChecker_error_transition_witness:
  "checkState (executeChecker noResolver 7
      \<lparr>config = \<lparr>AllowPrivateIPs = Some True, Check_Target = ''10.0.0.1'', Check_Opts = []\<rparr>,
        checkState = \<lparr>state = \<lparr>Status = StatusRunning, Progress = (0 :: real),
            Report = \<lparr>Report_Status = StatusRunning, Report_Error = [], StartTime = 0, EndTime = 0\<rparr>\<rparr>,
          pusher = []\<rparr>,
        checker = \<lparr>Run_reports = [], Run_returns = Some Canceled\<rparr>,
        cleanUps = 0\<rparr>)
   = \<lparr>state = \<lparr>Status = StatusAborted, Progress = 1,
          Report = \<lparr>Report_Status = StatusAborted, Report_Error = [], StartTime = 0, EndTime = 7\<rparr>\<rparr>,
        pusher = [\<lparr>Status = StatusAborted, Progress = 1,
          Report = \<lparr>Report_Status = StatusAborted, Report_Error = [], StartTime = 0, EndTime = 7\<rparr>\<rparr>]\<rparr> \<and>
   checkState (executeChecker noResolver 7
      \<lparr>config = \<lparr>AllowPrivateIPs = Some True, Check_Target = ''10.0.0.1'', Check_Opts = []\<rparr>,
        checkState = \<lparr>state = \<lparr>Status = StatusRunning, Progress = (0 :: real),
            Report = \<lparr>Report_Status = StatusRunning, Report_Error = [], StartTime = 0, EndTime = 0\<rparr>\<rparr>,
          pusher = []\<rparr>,
        checker = \<lparr>Run_reports = [], Run_returns = Some (ErrorString ''boom'')\<rparr>,
        cleanUps = 0\<rparr>)
   = \<lparr>state = \<lparr>Status = StatusFailed, Progress = 1,
          Report = \<lparr>Report_Status = StatusFailed, Report_Error = ''boom'', StartTime = 0, EndTime = 7\<rparr>\<rparr>,
        pusher = [\<lparr>Status = StatusFailed, Progress = 1,
          Report = \<lparr>Report_Status = StatusFailed, Report_Error = ''boom'', StartTime = 0, EndTime = 7\<rparr>\<rparr>]\<rparr>"
  using
    executeChecker_error_transition [of
      "\<lparr>config = \<lparr>AllowPrivateIPs = Some True, Check_Target = ''10.0.0.1'', Check_Opts = []\<rparr>,
        checkState = \<lparr>state = \<lparr>Status = StatusRunning, Progress = (0 :: real),
            Report = \<lparr>Report_Status = StatusRunning, Report_Error = [], StartTime = 0, EndTime = 0\<rparr>\<rparr>,
          pusher = []\<rparr>,
        checker = \<lparr>Run_reports = [], Run_returns = Some Canceled\<rparr>,
        cleanUps = 0\<rparr>" noResolver Canceled 7]
    executeChecker_error_transition [of
      "\<lparr>config = \<lparr>AllowPrivateIPs = Some True, Check_Target = ''10.0.0.1'', Check_Opts = []\<rparr>,
        checkState = \<lparr>state = \<lparr>Status = StatusRunning, Progress = (0 :: real),
            Report = \<lparr>Report_Status = StatusRunning, Report_Error = [], StartTime = 0, EndTime = 0\<rparr>\<rparr>,
          pusher = []\<rparr>,
        checker = \<lparr>Run_reports = [], Run_returns = Some (ErrorString ''boom'')\<rparr>,
        cleanUps = 0\<rparr>" noResolver "ErrorString ''boom''" 7]
  by (simp add: ptrToBool_def SetStatusAborted_def SetStatusFailed_def SetEndTime_def
      UpdateState_rec_def Let_def)

section \<open>The exit status of the command-line runner\<close>

lemma serveLoop_done:
  "serveLoop b k (replicate n ExitSignalEv @ DoneEv err # rest) =
     ((if b \<and> 0 < n then k + 1 else k), Some err)"
  by (induction n arbitrary: b k) auto

text \<open>
  C10. In the local command-line runner, whenever the check body returns (its value
  arrives on \<^verbatim>\<open>done\<close>, after any number of termination signals) and the result
  formatter returns, \<^verbatim>\<open>RunAndServe\<close> ends the process with exit status 0 if the body
  returned a non-nil error and with exit status 1 if it returned no error: the statuses are
  the reverse of the convention. The clean-up runs once and the context is cancelled at most
  once.
\<close>

theorem RunAndServe_local_exit_status:
  assumes "fmt_ok"
  shows "ending (RunAndServe_local fmt_ok (replicate n ExitSignalEv @ DoneEv err # rest)) =
           Exited (if err \<noteq> None then 0 else 1) \<and>
         cleanUp_calls (RunAndServe_local fmt_ok (replicate n ExitSignalEv @ DoneEv err # rest)) = 1 \<and>
         cancel_calls (RunAndServe_local fmt_ok (replicate n ExitSignalEv @ DoneEv err # rest)) =
           min n 1"
  using assms by (auto simp: RunAndServe_local_def serveLoop_done)

theorem RunAndServe_local_exit_status_witness:
  "ending (RunAndServe_local True [DoneEv (Some (ErrorString ''scan failed''))]) = Exited 0 \<and>
   ending (RunAndServe_local True [ExitSignalEv, ExitSignalEv, DoneEv (Some Canceled)]) = Exited 0 \<and>
   ending (RunAndServe_local True [DoneEv None]) = Exited 1"
  using RunAndServe_local_exit_status [of True 0 "Some (ErrorString ''scan failed'')" "[]"]
    RunAndServe_local_exit_status [of True 2 "Some Canceled" "[]"]
    RunAndServe_local_exit_status [of True 0 None "[]"]
  by (simp add: numeral_2_eq_2)

section \<open>A failed delivery\<close>

text \<open>
  C2, as stated, fails: the claim says that a failed delivery is logged and then ends the
  whole process. At a transport error, and at a response with status 500,
  \<^verbatim>\<open>sendPushMsg\<close> issues the request, logs one error entry and returns: nothing in
  what it does exits or panics.
\<close>

theorem sendPushMsg_fatal_counterexample:
  "delivery_failed (TransportError ''connection refused'') \<and>
   sendPushMsg ''snapshot'' ''check-1'' (TransportError ''connection refused'') =
     [Patch ''check-1'' ''snapshot'', Log ErrorLevel ''Error sending message to agent''] \<and>
   \<not> list_ex is_fatal (sendPushMsg ''snapshot'' ''check-1'' (TransportError ''connection refused'')) \<and>
   delivery_failed (Response 500) \<and>
   \<not> list_ex is_fatal (sendPushMsg ''snapshot'' ''check-1'' (Response 500))"
  by (simp add: sendPushMsg_def retry_def)

text \<open>
  C2, amended. For every snapshot whose delivery attempt fails (transport error, or a
  status other than 200), the pusher logs the failure at error level and does nothing more:
  no retry, no exit, no panic; the sender loop goes on with the next queued message.
\<close>

theorem sendPushMsg_failure_logged_only:
  assumes "delivery_failed res"
  shows "sendPushMsg m i res = [Patch i m, Log ErrorLevel ''Error sending message to agent''] \<and>
         \<not> list_ex is_fatal (sendPushMsg m i res) \<and>
         goPusher_range ((pm, res) # rest) =
           [Log DebugLevel ''Sending message'', Patch (msg_id pm) (msg_body pm),
            Log ErrorLevel ''Error sending message to agent''] @ goPusher_range rest"
  using assms by (cases res) (auto simp: sendPushMsg_def retry_def)

theorem sendPushMsg_failure_logged_only_witness:
  "goPusher_range
     [(\<lparr>msg_id = ''check-1'', msg_body = ''s1''\<rparr>, Response 500),
      (\<lparr>msg_id = ''check-1'', msg_body = ''s2''\<rparr>, Response 200)] =
   [Log DebugLevel ''Sending message'', Patch ''check-1'' ''s1'',
    Log ErrorLevel ''Error sending message to agent'',
    Log DebugLevel ''Sending message'', Patch ''check-1'' ''s2'',
    Log DebugLevel ''Message sent to the agent'']"
  using sendPushMsg_failure_logged_only [of "Response 500" "''s1''" "''check-1''"
      "\<lparr>msg_id = ''check-1'', msg_body = ''s1''\<rparr>"
      "[(\<lparr>msg_id = ''check-1'', msg_body = ''s2''\<rparr>, Response 200)]"]
  by (simp add: sendPushMsg_def)

section \<open>The address parsers\<close>

lemma dtoi_loop_digits:
  "dtoi_loop n i s = (m, j, True) \<Longrightarrow>
     i \<le> j \<and> j - i \<le> length s \<and> (\<forall>c\<in>set (take (j - i) s). isDigit c)"
proof (induction s arbitrary: n i)
  case Nil
  then show ?case by (auto split: if_splits)
next
  case (Cons c cs)
  show ?case
  proof (cases "isDigit c \<and> n * 10 + (of_char c - of_char CHR ''0'') < big")
    case True
    with Cons.prems have "dtoi_loop (n * 10 + (of_char c - of_char CHR ''0'')) (i + 1) cs = (m, j, True)"
      by (simp add: Let_def)
    from Cons.IH [OF this] have *: "i + 1 \<le> j" "j - (i + 1) \<le> length cs"
      "\<forall>c\<in>set (take (j - (i + 1)) cs). isDigit c" by auto
    from * have "j - i = Suc (j - (i + 1))" by simp
    with * True show ?thesis by auto
  next
    case False
    with Cons.prems show ?thesis by (auto simp: Let_def split: if_splits)
  qed
qed

lemma dtoi_digits:
  "dtoi s = (m, c, True) \<Longrightarrow> c \<le> length s \<and> (\<forall>ch\<in>set (take c s). isDigit ch)"
  using dtoi_loop_digits [of 0 0 s m c] by (simp add: dtoi_def)

lemma parseIPv4_loop_chars:
  "parseIPv4_loop i p s = Some (p', r) \<Longrightarrow>
     \<exists>pre. s = pre @ r \<and> (\<forall>c\<in>set pre. isDigit c \<or> c = CHR ''.'')"
proof (induction i p s rule: parseIPv4_loop.induct)
  case (1 i p s)
  show ?case
  proof (cases "i < IPv4len")
    case False
    with "1.prems" show ?thesis by (simp add: parseIPv4_loop.simps)
  next
    case True
    note lt = this
    from "1.prems" lt have ne: "s \<noteq> []"
      by (subst (asm) parseIPv4_loop.simps) (auto split: if_splits)
    define s1 where "s1 = (if i > 0 then tl s else s)"
    from "1.prems" lt ne have hd: "i > 0 \<longrightarrow> hd s = CHR ''.''"
      by (subst (asm) parseIPv4_loop.simps) (auto split: if_splits)
    obtain n c ok where d: "dtoi s1 = (n, c, ok)" by (cases "dtoi s1") auto
    from "1.prems" lt ne hd d have ok: "ok" "\<not> n > 0xFF"
      and rec: "parseIPv4_loop (i + 1) (p[i := of_nat n]) (drop c s1) = Some (p', r)"
      by (subst (asm) parseIPv4_loop.simps; auto simp: s1_def split: if_splits)+
    have sel: "(if 0 < i then if hd s \<noteq> CHR ''.'' then None else Some (tl s) else Some s) = Some s1"
      using hd by (simp add: s1_def)
    have "\<exists>pre. drop c s1 = pre @ r \<and> (\<forall>c\<in>set pre. isDigit c \<or> c = CHR ''.'')"
      using "1.IH" [of s1 n "(c, ok)" c ok, OF lt ne sel] d ok rec by simp
    then obtain pre where pre: "drop c s1 = pre @ r" "\<forall>c\<in>set pre. isDigit c \<or> c = CHR ''.''"
      by blast
    from d ok dtoi_digits [of s1 n c] have dg: "\<forall>ch\<in>set (take c s1). isDigit ch" by simp
    have s1: "s1 = take c s1 @ pre @ r" using pre(1) by (metis append_take_drop_id)
    show ?thesis
    proof (cases "i > 0")
      case True
      with ne hd have "s = CHR ''.'' # s1" by (cases s) (auto simp: s1_def)
      with s1 have "s = (CHR ''.'' # take c s1 @ pre) @ r" by simp
      moreover have "\<forall>c\<in>set (CHR ''.'' # take c s1 @ pre). isDigit c \<or> c = CHR ''.''"
        using dg pre(2) by auto
      ultimately show ?thesis by blast
    next
      case False
      then have "s = s1" by (simp add: s1_def)
      with s1 have "s = (take c s1 @ pre) @ r" by simp
      moreover have "\<forall>c\<in>set (take c s1 @ pre). isDigit c \<or> c = CHR ''.''"
        using dg pre(2) by auto
      ultimately show ?thesis by blast
    qed
  qed
qed

lemma parseIPv4_chars:
  assumes "parseIPv4 s = Some ip"
  shows "\<forall>c\<in>set s. isDigit c \<or> c = CHR ''.''"
proof -
  from assms obtain p where "parseIPv4_loop 0 (replicate IPv4len 0) s = Some (p, [])"
    by (auto simp: parseIPv4_def split: option.splits if_splits)
  from parseIPv4_loop_chars [OF this] show ?thesis by auto
qed

lemma parseIPv4_no_slash: "parseIPv4 s = Some ip \<Longrightarrow> CHR ''/'' \<notin> set s"
  using parseIPv4_chars [of s ip] by (auto simp: isDigit_def)

lemma parseIPv4_no_colon: "parseIPv4 s = Some ip \<Longrightarrow> CHR '':'' \<notin> set s"
  using parseIPv4_chars [of s ip] by (auto simp: isDigit_def)

lemma parseIPv4_shape: "parseIPv4 s = Some ip \<Longrightarrow> \<exists>a b c d. ip = IPv4 a b c d"
  by (auto simp: parseIPv4_def split: option.splits if_splits) blast

lemma parseIPv4_has_dot:
  assumes "parseIPv4 s = Some ip"
  shows "CHR ''.'' \<in> set s"
proof -
  from assms obtain p where l0: "parseIPv4_loop 0 (replicate IPv4len 0) s = Some (p, [])"
    by (auto simp: parseIPv4_def split: option.splits if_splits)
  obtain n c ok where d: "dtoi s = (n, c, ok)" by (cases "dtoi s") auto
  from l0 d have l1: "parseIPv4_loop 1 ((replicate IPv4len 0)[0 := of_nat n]) (drop c s) = Some (p, [])"
    by (subst (asm) parseIPv4_loop.simps) (auto simp: IPv4len_def split: if_splits)
  then have "drop c s \<noteq> [] \<and> hd (drop c s) = CHR ''.''"
    by (subst (asm) parseIPv4_loop.simps) (auto simp: IPv4len_def split: if_splits)
  then have "CHR ''.'' \<in> set (drop c s)" by (cases "drop c s") auto
  then show ?thesis by (meson in_set_dropD)
qed

lemma hexDigit_not_slash: "hexDigit c \<noteq> None \<Longrightarrow> c \<noteq> CHR ''/''"
  by (auto simp: hexDigit_def)

lemma xtoi_loop_hex:
  "xtoi_loop n i s = (m, j, True) \<Longrightarrow>
     i \<le> j \<and> j - i \<le> length s \<and> (\<forall>c\<in>set (take (j - i) s). hexDigit c \<noteq> None)"
proof (induction s arbitrary: n i)
  case Nil
  then show ?case by (auto split: if_splits)
next
  case (Cons c cs)
  show ?case
  proof (cases "hexDigit c")
    case None
    with Cons.prems show ?thesis by (auto split: if_splits)
  next
    case (Some d)
    show ?thesis
    proof (cases "n * 16 + d \<ge> big")
      case True
      with Some Cons.prems show ?thesis by (simp add: Let_def)
    next
      case False
      with Some Cons.prems have "xtoi_loop (n * 16 + d) (i + 1) cs = (m, j, True)"
        by (simp add: Let_def)
      from Cons.IH [OF this] have *: "i + 1 \<le> j" "j - (i + 1) \<le> length cs"
        "\<forall>c\<in>set (take (j - (i + 1)) cs). hexDigit c \<noteq> None" by auto
      from * have "j - i = Suc (j - (i + 1))" by simp
      with * Some show ?thesis by auto
    qed
  qed
qed

lemma xtoi_hex:
  "xtoi s = (m, c, True) \<Longrightarrow> c \<le> length s \<and> (\<forall>ch\<in>set (take c s). hexDigit ch \<noteq> None)"
  using xtoi_loop_hex [of 0 0 s m c] by (simp add: xtoi_def)

text \<open>One turn of the loop of parseIPv6, read off the defining equation.\<close>

lemma parseIPv6_loop_cases:
  assumes "parseIPv6_loop ip e i s = Some res" and "i < IPv6len"
  obtains (dot) n c ip4 where "xtoi s = (n, c, True)" "c < length s" "s ! c = CHR ''.''"
      "parseIPv4 s = Some ip4"
      "res = (ip[i := ip4 ! 12, i + 1 := ip4 ! 13, i + 2 := ip4 ! 14, i + 3 := ip4 ! 15],
              e, i + IPv4len, [])"
    | (last) n c where "xtoi s = (n, c, True)" "drop c s = []"
      "res = (ip[i := of_nat (drop_bit 8 n), i + 1 := of_nat n], e, i + 2, [])"
    | (ell_end) n c where "xtoi s = (n, c, True)" "drop c s = [CHR '':'', CHR '':'']"
      "res = (ip[i := of_nat (drop_bit 8 n), i + 1 := of_nat n], int (i + 2), i + 2, [])"
    | (ell) n c s3 where "xtoi s = (n, c, True)" "drop c s = CHR '':'' # CHR '':'' # s3" "s3 \<noteq> []"
      "\<not> (c < length s \<and> s ! c = CHR ''.'')" "\<not> n > 0xFFFF" "\<not> 0 \<le> e"
      "parseIPv6_loop (ip[i := of_nat (drop_bit 8 n), i + 1 := of_nat n]) (int (i + 2)) (i + 2) s3
         = Some res"
    | (colon) n c s2 where "xtoi s = (n, c, True)" "drop c s = CHR '':'' # s2" "s2 \<noteq> []"
      "hd s2 \<noteq> CHR '':''"
      "\<not> (c < length s \<and> s ! c = CHR ''.'')" "\<not> n > 0xFFFF"
      "parseIPv6_loop (ip[i := of_nat (drop_bit 8 n), i + 1 := of_nat n]) e (i + 2) s2 = Some res"
proof -
  obtain n c ok where x: "xtoi s = (n, c, ok)" by (cases "xtoi s") auto
  from assms x have ok: "ok" "\<not> n > 0xFFFF"
    by (subst (asm) parseIPv6_loop.simps; auto split: if_splits)+
  show thesis
  proof (cases "c < length s \<and> s ! c = CHR ''.''")
    case True
    with assms x ok show thesis
      by (subst (asm) parseIPv6_loop.simps) (auto split: if_splits option.splits intro: dot)
  next
    case False
    note nodot = this
    show thesis
    proof (cases "drop c s")
      case Nil
      with assms x ok nodot show thesis
        by (subst (asm) parseIPv6_loop.simps) (auto split: if_splits simp: Let_def intro: last)
    next
      case (Cons a s2)
      note s1 = this
      from assms x ok nodot s1 have a: "a = CHR '':''" "s2 \<noteq> []"
        by (subst (asm) parseIPv6_loop.simps; auto split: if_splits simp: Let_def)+
      show thesis
      proof (cases "hd s2 = CHR '':''")
        case False
        with assms x ok nodot s1 a show thesis
          by (subst (asm) parseIPv6_loop.simps) (auto split: if_splits simp: Let_def intro: colon)
      next
        case True
        with a obtain s3 where s2: "s2 = CHR '':'' # s3" by (cases s2) auto
        show thesis
        proof (cases "s3 = []")
          case True
          with assms x ok nodot s1 a s2 show thesis
            by (subst (asm) parseIPv6_loop.simps) (auto split: if_splits simp: Let_def intro: ell_end)
        next
          case False
          with assms x ok nodot s1 a s2 show thesis
            by (subst (asm) parseIPv6_loop.simps) (auto split: if_splits simp: Let_def intro: ell)
        qed
      qed
    qed
  qed
qed

lemma parseIPv6_loop_length:
  "parseIPv6_loop ip e i s = Some (ip', e', i', r) \<Longrightarrow> length ip' = length ip"
proof (induction "IPv6len - i" arbitrary: ip e i s rule: less_induct)
  case less
  show ?case
  proof (cases "i < IPv6len")
    case False
    with less.prems show ?thesis by (simp add: parseIPv6_loop.simps)
  next
    case True
    then have dec: "IPv6len - (i + 2) < IPv6len - i" by simp
    from less.prems True show ?thesis
    proof (cases rule: parseIPv6_loop_cases)
      case (ell n c s3)
      from less.hyps [OF dec ell(7)] show ?thesis by simp
    next
      case (colon n c s2)
      from less.hyps [OF dec colon(7)] show ?thesis by simp
    qed auto
  qed
qed

lemma parseIPv6_loop_no_slash:
  "parseIPv6_loop ip e i s = Some (ip', e', i', r) \<Longrightarrow>
     \<exists>pre. s = pre @ r \<and> CHR ''/'' \<notin> set pre"
proof (induction "IPv6len - i" arbitrary: ip e i s rule: less_induct)
  case less
  show ?case
  proof (cases "i < IPv6len")
    case False
    with less.prems show ?thesis by (simp add: parseIPv6_loop.simps)
  next
    case True
    then have dec: "IPv6len - (i + 2) < IPv6len - i" by simp
    have hex: "CHR ''/'' \<notin> set (take c s)" if "xtoi s = (n, c, True)" for n c
      using xtoi_hex [OF that] hexDigit_not_slash by blast
    from less.prems True show ?thesis
    proof (cases rule: parseIPv6_loop_cases)
      case (dot n c ip4)
      then show ?thesis using parseIPv4_no_slash by auto
    next
      case (last n c)
      with hex [OF last(1)] have "s = take c s @ r" "CHR ''/'' \<notin> set (take c s)"
        by (auto simp: append_eq_conv_conj)
      then show ?thesis by blast
    next
      case (ell_end n c)
      then have "s = (take c s @ [CHR '':'', CHR '':'']) @ r"
        by (metis append_Nil2 append_take_drop_id prod.inject)
      moreover have "CHR ''/'' \<notin> set (take c s @ [CHR '':'', CHR '':''])"
        using hex [OF ell_end(1)] by simp
      ultimately show ?thesis by blast
    next
      case (ell n c s3)
      from less.hyps [OF dec ell(7)] obtain pre where pre: "s3 = pre @ r" "CHR ''/'' \<notin> set pre"
        by blast
      have "s = take c s @ drop c s" by simp
      with ell(2) pre(1) have "s = (take c s @ [CHR '':'', CHR '':''] @ pre) @ r" by simp
      moreover have "CHR ''/'' \<notin> set (take c s @ [CHR '':'', CHR '':''] @ pre)"
        using hex [OF ell(1)] pre(2) by simp
      ultimately show ?thesis by blast
    next
      case (colon n c s2)
      from less.hyps [OF dec colon(7)] obtain pre where pre: "s2 = pre @ r" "CHR ''/'' \<notin> set pre"
        by blast
      have "s = take c s @ drop c s" by simp
      with colon(2) pre(1) have "s = (take c s @ [CHR '':''] @ pre) @ r" by simp
      moreover have "CHR ''/'' \<notin> set (take c s @ [CHR '':''] @ pre)"
        using hex [OF colon(1)] pre(2) by simp
      ultimately show ?thesis by blast
    qed
  qed
qed

lemma length_fold_update:
  "length (fold (\<lambda>j a. a[f j := g j a]) js ip) = length ip"
  by (induction js arbitrary: ip) auto

lemma expandEllipsis_length: "length (expandEllipsis ip e i) = length ip"
  by (simp add: expandEllipsis_def Let_def length_fold_update)

lemma parseIPv6_loop_length_init:
  "parseIPv6_loop (replicate IPv6len 0) e 0 t = Some (ip', e', i', r) \<Longrightarrow> length ip' = IPv6len"
  using parseIPv6_loop_length by fastforce

lemma parseIPv6_length:
  assumes "parseIPv6 s = Some ip"
  shows "length ip = IPv6len"
  using assms
  by (auto simp: parseIPv6_def Let_def expandEllipsis_length
      split: if_splits option.splits dest!: parseIPv6_loop_length_init)

lemma parseIPv6_no_slash:
  assumes "parseIPv6 s = Some ip"
  shows "CHR ''/'' \<notin> set s"
proof (cases "length s \<ge> 2 \<and> s ! 0 = CHR '':'' \<and> s ! 1 = CHR '':''")
  case True
  then obtain t where s: "s = CHR '':'' # CHR '':'' # t"
    by (cases s; cases "tl s") auto
  show ?thesis
  proof (cases "t = []")
    case True
    with s show ?thesis by simp
  next
    case False
    with assms s obtain ip' e' i' where "parseIPv6_loop (replicate IPv6len 0) 0 0 t = Some (ip', e', i', [])"
      by (auto simp: parseIPv6_def Let_def split: if_splits option.splits)
    from parseIPv6_loop_no_slash [OF this] s show ?thesis by auto
  qed
next
  case False
  with assms obtain ip' e' i' where "parseIPv6_loop (replicate IPv6len 0) (-1) 0 s = Some (ip', e', i', [])"
    by (auto simp: parseIPv6_def Let_def split: if_splits option.splits)
  from parseIPv6_loop_no_slash [OF this] show ?thesis by auto
qed

lemma ParseIP_scan_no_colon:
  "CHR '':'' \<notin> set r \<Longrightarrow> ParseIP_scan s r = Some ip \<Longrightarrow> parseIPv4 s = Some ip"
  by (induction r) (auto split: if_splits)

lemma ParseIP_scan_no_dot:
  "CHR ''.'' \<notin> set r \<Longrightarrow> ParseIP_scan s r = Some ip \<Longrightarrow> parseIPv6 s = Some ip"
  by (induction r) (auto split: if_splits)

lemma ParseIP_scan_first_dot:
  "CHR '':'' \<notin> set r \<Longrightarrow> CHR ''.'' \<in> set r \<Longrightarrow> ParseIP_scan s r = parseIPv4 s"
  by (induction r) auto

lemma parseIPv4_ParseIP: "parseIPv4 s = Some ip \<Longrightarrow> ParseIP s = Some ip"
  using ParseIP_scan_first_dot [of s s] parseIPv4_no_colon [of s ip] parseIPv4_has_dot [of s ip]
  by (simp add: ParseIP_def)

lemma replicate_numeral: "replicate (numeral k) x = x # replicate (pred_numeral k) x"
  by (simp add: numeral_eq_Suc)

lemma list_update_Cons_numeral: "(x # xs)[numeral k := y] = x # xs[pred_numeral k := y]"
  by (simp add: numeral_eq_Suc)

lemma CIDRMask_loop_numeral:
  "CIDRMask_loop (numeral k) n =
     (if n \<ge> 8 then 0xff # CIDRMask_loop (pred_numeral k) (n - 8)
      else NOT (drop_bit n (0xff :: byte)) # CIDRMask_loop (pred_numeral k) 0)"
  by (simp add: numeral_eq_Suc)

lemma upt_numeral_eval:
  "[i..<numeral n] = (if i < numeral n then i # [Suc i..<numeral n] else [])"
  by (simp add: upt_rec)

lemmas net_eval = upt_numeral_eval dtoi_def xtoi_def isDigit_def hexDigit_def big_def IPv4len_def IPv6len_def
  parseIPv4_def parseIPv4_loop.simps parseIPv6_def parseIPv6_loop.simps expandEllipsis_def
  ParseIP_def ParseCIDR_def CIDRMask_def IP_Mask_def To4_def networkNumberAndMask_def Contains_def
  IPv4_def v4InV6Prefix_def allFF_def isZeros_def Let_def replicate_numeral list_update_Cons_numeral
  CIDRMask_loop_numeral

lemma split_at_slash:
  "CHR ''/'' \<notin> set s \<Longrightarrow>
     takeWhile (\<lambda>c. c \<noteq> CHR ''/'') (s @ CHR ''/'' # m) = s \<and>
     dropWhile (\<lambda>c. c \<noteq> CHR ''/'') (s @ CHR ''/'' # m) = CHR ''/'' # m"
  by (induction s) auto

lemma dtoi_32: "dtoi ''32'' = (32, 2, True)"
  by (simp add: net_eval)

lemma dtoi_128: "dtoi ''128'' = (128, 3, True)"
  by (simp add: net_eval)

lemma CIDRMask_32: "CIDRMask 32 32 = [255, 255, 255, 255]"
  by (simp add: net_eval)

lemma CIDRMask_128: "CIDRMask 128 128 = replicate 16 255"
  by (simp add: net_eval)

lemma byte_and_255: "(a :: byte) AND 255 = a"
proof -
  have "(255 :: byte) = - 1" by simp
  then show ?thesis by (simp only: and.right_neutral)
qed

lemma IP_Mask_v4_full: "IP_Mask (IPv4 a b c d) [255, 255, 255, 255] = [a, b, c, d]"
  by (simp add: IP_Mask_def IPv4_def v4InV6Prefix_def IPv4len_def IPv6len_def Let_def byte_and_255)

lemma and_replicate_255: "map (\<lambda>(a, b). a AND b) (zip ip (replicate (length ip) (255 :: byte))) = ip"
  by (induction ip) (auto simp: byte_and_255)

lemma IP_Mask_v6_full: "length ip = IPv6len \<Longrightarrow> IP_Mask ip (replicate 16 255) = ip"
  using and_replicate_255 [of ip]
  by (simp add: IP_Mask_def IPv4len_def IPv6len_def Let_def)

lemma ParseCIDR_v4_32:
  assumes "parseIPv4 s = Some (IPv4 a b c d)"
  shows "ParseCIDR (s @ ''/32'') =
           Some (IPv4 a b c d, \<lparr>IPNet_IP = [a, b, c, d], IPNet_Mask = [255, 255, 255, 255]\<rparr>)"
proof -
  have ns: "CHR ''/'' \<notin> set s" using assms by (rule parseIPv4_no_slash)
  from split_at_slash [OF ns, of "''32''"] assms show ?thesis
    by (simp add: ParseCIDR_def dtoi_32 CIDRMask_32 IP_Mask_v4_full IPv4len_def)
qed

lemma ParseCIDR_v6_128:
  assumes "parseIPv4 s = None" and "parseIPv6 s = Some ip"
  shows "ParseCIDR (s @ ''/128'') =
           Some (ip, \<lparr>IPNet_IP = ip, IPNet_Mask = replicate 16 255\<rparr>)"
proof -
  have ns: "CHR ''/'' \<notin> set s" using assms(2) by (rule parseIPv6_no_slash)
  have len: "length ip = IPv6len" using assms(2) by (rule parseIPv6_length)
  from split_at_slash [OF ns, of "''128''"] assms show ?thesis
    by (simp add: ParseCIDR_def dtoi_128 CIDRMask_128 IP_Mask_v6_full [OF len] IPv6len_def)
qed

lemma To4_IPv4: "To4 (IPv4 a b c d) = Some [a, b, c, d]"
  by (simp add: To4_def IPv4_def v4InV6Prefix_def IPv4len_def IPv6len_def isZeros_def)

lemma To4_4: "To4 [a, b, c, d] = Some [a, b, c, d]"
  by (simp add: To4_def IPv4len_def)

lemma Contains_IPv4: "Contains n [a, b, c, d] = Contains n (IPv4 a b c d)"
  by (simp add: Contains_def To4_IPv4 To4_4)

lemma isAllowed_dotted_quad:
  assumes "parseIPv4 s = Some ip"
  shows "isAllowed s = (\<not> list_ex (\<lambda>n. Contains n ip) NotScannableNetsIPV4, None)"
proof -
  from parseIPv4_shape [OF assms] obtain a b c d where ip: "ip = IPv4 a b c d" by blast
  have "CHR ''.'' \<in> set s" "CHR ''/'' \<notin> set s"
    using assms parseIPv4_has_dot parseIPv4_no_slash by blast+
  then show ?thesis
    using ParseCIDR_v4_32 [of s a b c d] assms ip
    by (simp add: isAllowed_def Contains_IPv4)
qed

lemma isAllowed_v6_no_dot:
  assumes "parseIPv6 s = Some ip" and "CHR ''.'' \<notin> set s"
  shows "isAllowed s = (\<not> list_ex (\<lambda>n. Contains n ip) NotScannableNetsIPV6, None)"
proof -
  have v4: "parseIPv4 s = None"
    using assms(2) parseIPv4_has_dot [of s] by (cases "parseIPv4 s") auto
  have "CHR ''/'' \<notin> set s" using assms(1) by (rule parseIPv6_no_slash)
  then show ?thesis
    using ParseCIDR_v6_128 [OF v4 assms(1)] assms(2)
    by (simp add: isAllowed_def)
qed

lemma NotScannableNetsIPV4_eval:
  "NotScannableNetsIPV4 =
     [\<lparr>IPNet_IP = [0, 0, 0, 0], IPNet_Mask = [255, 0, 0, 0]\<rparr>,
      \<lparr>IPNet_IP = [10, 0, 0, 0], IPNet_Mask = [255, 0, 0, 0]\<rparr>,
      \<lparr>IPNet_IP = [100, 64, 0, 0], IPNet_Mask = [255, 192, 0, 0]\<rparr>,
      \<lparr>IPNet_IP = [127, 0, 0, 0], IPNet_Mask = [255, 0, 0, 0]\<rparr>,
      \<lparr>IPNet_IP = [169, 254, 0, 0], IPNet_Mask = [255, 255, 0, 0]\<rparr>,
      \<lparr>IPNet_IP = [172, 16, 0, 0], IPNet_Mask = [255, 240, 0, 0]\<rparr>,
      \<lparr>IPNet_IP = [192, 0, 0, 0], IPNet_Mask = [255, 255, 255, 0]\<rparr>,
      \<lparr>IPNet_IP = [192, 0, 2, 0], IPNet_Mask = [255, 255, 255, 0]\<rparr>,
      \<lparr>IPNet_IP = [192, 88, 99, 0], IPNet_Mask = [255, 255, 255, 0]\<rparr>,
      \<lparr>IPNet_IP = [192, 168, 0, 0], IPNet_Mask = [255, 255, 0, 0]\<rparr>,
      \<lparr>IPNet_IP = [198, 18, 0, 0], IPNet_Mask = [255, 254, 0, 0]\<rparr>,
      \<lparr>IPNet_IP = [198, 51, 100, 0], IPNet_Mask = [255, 255, 255, 0]\<rparr>,
      \<lparr>IPNet_IP = [203, 0, 113, 0], IPNet_Mask = [255, 255, 255, 0]\<rparr>,
      \<lparr>IPNet_IP = [224, 0, 0, 0], IPNet_Mask = [240, 0, 0, 0]\<rparr>,
      \<lparr>IPNet_IP = [240, 0, 0, 0], IPNet_Mask = [240, 0, 0, 0]\<rparr>,
      \<lparr>IPNet_IP = [255, 255, 255, 255], IPNet_Mask = [255, 255, 255, 255]\<rparr>]"
  by (simp add: NotScannableNetsIPV4_def reservedIPV4s_def List.map_filter_def net_eval)

lemma NotScannableNetsIPV6_eval:
  "NotScannableNetsIPV6 =
     [\<lparr>IPNet_IP = [0, 0, 0, 0, 0, 0, 0, 0, 0, 0, 0, 0, 0, 0, 0, 1], IPNet_Mask = [255, 255, 255, 255, 255, 255, 255, 255, 255, 255, 255, 255, 255, 255, 255, 255]\<rparr>,
      \<lparr>IPNet_IP = [0, 100, 255, 155, 0, 0, 0, 0, 0, 0, 0, 0, 0, 0, 0, 0], IPNet_Mask = [255, 255, 255, 255, 255, 255, 255, 255, 255, 255, 255, 255, 0, 0, 0, 0]\<rparr>,
      \<lparr>IPNet_IP = [1, 0, 0, 0, 0, 0, 0, 0, 0, 0, 0, 0, 0, 0, 0, 0], IPNet_Mask = [255, 255, 255, 255, 255, 255, 255, 255, 0, 0, 0, 0, 0, 0, 0, 0]\<rparr>,
      \<lparr>IPNet_IP = [32, 1, 0, 0, 0, 0, 0, 0, 0, 0, 0, 0, 0, 0, 0, 0], IPNet_Mask = [255, 255, 255, 255, 0, 0, 0, 0, 0, 0, 0, 0, 0, 0, 0, 0]\<rparr>,
      \<lparr>IPNet_IP = [32, 1, 0, 32, 0, 0, 0, 0, 0, 0, 0, 0, 0, 0, 0, 0], IPNet_Mask = [255, 255, 255, 240, 0, 0, 0, 0, 0, 0, 0, 0, 0, 0, 0, 0]\<rparr>,
      \<lparr>IPNet_IP = [32, 1, 13, 184, 0, 0, 0, 0, 0, 0, 0, 0, 0, 0, 0, 0], IPNet_Mask = [255, 255, 255, 255, 0, 0, 0, 0, 0, 0, 0, 0, 0, 0, 0, 0]\<rparr>,
      \<lparr>IPNet_IP = [32, 2, 0, 0, 0, 0, 0, 0, 0, 0, 0, 0, 0, 0, 0, 0], IPNet_Mask = [255, 255, 0, 0, 0, 0, 0, 0, 0, 0, 0, 0, 0, 0, 0, 0]\<rparr>,
      \<lparr>IPNet_IP = [252, 0, 0, 0, 0, 0, 0, 0, 0, 0, 0, 0, 0, 0, 0, 0], IPNet_Mask = [254, 0, 0, 0, 0, 0, 0, 0, 0, 0, 0, 0, 0, 0, 0, 0]\<rparr>,
      \<lparr>IPNet_IP = [254, 128, 0, 0, 0, 0, 0, 0, 0, 0, 0, 0, 0, 0, 0, 0], IPNet_Mask = [255, 192, 0, 0, 0, 0, 0, 0, 0, 0, 0, 0, 0, 0, 0, 0]\<rparr>,
      \<lparr>IPNet_IP = [255, 0, 0, 0, 0, 0, 0, 0, 0, 0, 0, 0, 0, 0, 0, 0], IPNet_Mask = [255, 0, 0, 0, 0, 0, 0, 0, 0, 0, 0, 0, 0, 0, 0, 0]\<rparr>]"
  by (simp add: NotScannableNetsIPV6_def reservedIPV6s_def List.map_filter_def net_eval)

lemmas target_eval = IsScannable_def IsIP_def IsCIDR_def isAllowed_def
  NotScannableNetsIPV4_eval NotScannableNetsIPV6_eval net_eval


section \<open>Reserved ranges and IP literals\<close>

lemma reserved_all_parse:
  "map (\<lambda>s. map_option snd (ParseCIDR s)) reservedIPV4s = map Some NotScannableNetsIPV4 \<and>
   map (\<lambda>s. map_option snd (ParseCIDR s)) reservedIPV6s = map Some NotScannableNetsIPV6"
  by (simp add: NotScannableNetsIPV4_def NotScannableNetsIPV6_def reservedIPV4s_def
      reservedIPV6s_def List.map_filter_def net_eval)

text \<open>
  The first and the last address of every reserved IPv4 range are not scannable.
\<close>

lemma reserved_bounds_v4:
  "list_all (\<lambda>a. \<not> IsScannable noResolver a)
     [''0.0.0.0'',
      ''0.255.255.255'',
      ''10.0.0.0'',
      ''10.255.255.255'',
      ''100.64.0.0'',
      ''100.127.255.255'',
      ''127.0.0.0'',
      ''127.255.255.255'',
      ''169.254.0.0'',
      ''169.254.255.255'',
      ''172.16.0.0'',
      ''172.31.255.255'',
      ''192.0.0.0'',
      ''192.0.0.255'',
      ''192.0.2.0'',
      ''192.0.2.255'',
      ''192.88.99.0'',
      ''192.88.99.255'',
      ''192.168.0.0'',
      ''192.168.255.255'',
      ''198.18.0.0'',
      ''198.19.255.255'',
      ''198.51.100.0'',
      ''198.51.100.255'',
      ''203.0.113.0'',
      ''203.0.113.255'',
      ''224.0.0.0'',
      ''239.255.255.255'',
      ''240.0.0.0'',
      ''255.255.255.255'',
      ''255.255.255.255'',
      ''255.255.255.255'']"
  by (simp add: target_eval)

text \<open>
  The first and the last address of every reserved IPv6 range are not scannable.
\<close>

lemma reserved_bounds_v6:
  "list_all (\<lambda>a. \<not> IsScannable noResolver a)
     [''::1'',
      ''::1'',
      ''64:ff9b::'',
      ''64:ff9b::ffff:ffff'',
      ''100::'',
      ''100::ffff:ffff:ffff:ffff'',
      ''2001::'',
      ''2001:0:ffff:ffff:ffff:ffff:ffff:ffff'',
      ''2001:20::'',
      ''2001:2f:ffff:ffff:ffff:ffff:ffff:ffff'',
      ''2001:db8::'',
      ''2001:db8:ffff:ffff:ffff:ffff:ffff:ffff'',
      ''2002::'',
      ''2002:ffff:ffff:ffff:ffff:ffff:ffff:ffff'',
      ''fc00::'',
      ''fdff:ffff:ffff:ffff:ffff:ffff:ffff:ffff'',
      ''fe80::'',
      ''febf:ffff:ffff:ffff:ffff:ffff:ffff:ffff'',
      ''ff00::'',
      ''ffff:ffff:ffff:ffff:ffff:ffff:ffff:ffff'']"
  by (simp add: target_eval)

text \<open>
  The addresses next to a reserved range, below its first and above its last address,
  are scannable when no other range holds them.
\<close>

lemma outside_bounds_v4:
  "list_all (\<lambda>a. IsScannable noResolver a)
     [''1.0.0.0'',
      ''9.255.255.255'',
      ''11.0.0.0'',
      ''100.63.255.255'',
      ''100.128.0.0'',
      ''126.255.255.255'',
      ''128.0.0.0'',
      ''169.253.255.255'',
      ''169.255.0.0'',
      ''172.15.255.255'',
      ''172.32.0.0'',
      ''191.255.255.255'',
      ''192.0.1.0'',
      ''192.0.1.255'',
      ''192.0.3.0'',
      ''192.88.98.255'',
      ''192.88.100.0'',
      ''192.167.255.255'',
      ''192.169.0.0'',
      ''198.17.255.255'',
      ''198.20.0.0'',
      ''198.51.99.255'',
      ''198.51.101.0'',
      ''203.0.112.255'',
      ''203.0.114.0'',
      ''223.255.255.255'']"
  by (simp add: target_eval)

lemma outside_bounds_v6:
  "list_all (\<lambda>a. IsScannable noResolver a)
     [''::'',
      ''::2'',
      ''64:ff9a:ffff:ffff:ffff:ffff:ffff:ffff'',
      ''64:ff9b::1:0:0'',
      ''ff:ffff:ffff:ffff:ffff:ffff:ffff:ffff'',
      ''100:0:0:1::'',
      ''2000:ffff:ffff:ffff:ffff:ffff:ffff:ffff'',
      ''2001:1::'',
      ''2001:1f:ffff:ffff:ffff:ffff:ffff:ffff'',
      ''2001:30::'',
      ''2001:db7:ffff:ffff:ffff:ffff:ffff:ffff'',
      ''2001:db9::'',
      ''2001:ffff:ffff:ffff:ffff:ffff:ffff:ffff'',
      ''2003::'',
      ''fbff:ffff:ffff:ffff:ffff:ffff:ffff:ffff'',
      ''fe00::'',
      ''fe7f:ffff:ffff:ffff:ffff:ffff:ffff:ffff'',
      ''fec0::'',
      ''feff:ffff:ffff:ffff:ffff:ffff:ffff:ffff'']"
  by (simp add: target_eval)

text \<open>
  What \<^verbatim>\<open>IsScannable\<close> computes on the two spellings that \<^verbatim>\<open>isAllowed\<close> tells apart by
  the dot. A dotted quad is tested against the IPv4 list. An IPv6 literal written without a
  dot is tested against the IPv6 list only; this is also so for an IPv4-mapped address
  written in hexadecimal, which that list does not hold (see the theorem below).
\<close>

lemma IsScannable_dotted_quad:
  assumes "ParseIP s = Some ip" and "CHR '':'' \<notin> set s"
  shows "IsScannable env s = (\<not> list_ex (\<lambda>n. Contains n ip) NotScannableNetsIPV4)"
proof -
  from assms have v4: "parseIPv4 s = Some ip"
    using ParseIP_scan_no_colon [of s s ip] by (simp add: ParseIP_def)
  from assms have "IsIP s" by (simp add: IsIP_def)
  then show ?thesis
    by (simp add: IsScannable_def isAllowed_dotted_quad [OF v4])
qed

lemma IsScannable_ipv6_hex:
  assumes "ParseIP s = Some ip" and "CHR ''.'' \<notin> set s"
  shows "IsScannable env s = (\<not> list_ex (\<lambda>n. Contains n ip) NotScannableNetsIPV6)"
proof -
  from assms have v6: "parseIPv6 s = Some ip"
    using ParseIP_scan_no_dot [of s s ip] by (simp add: ParseIP_def)
  from assms have "IsIP s" by (simp add: IsIP_def)
  then show ?thesis
    using assms by (simp add: IsScannable_def isAllowed_v6_no_dot [OF v6])
qed

text \<open>
  C7. The claim says that every IP literal inside a listed reserved range is not scannable.
  The code does not do this for every spelling of an address.
  \<^verbatim>\<open>64:ff9b::10.0.0.1\<close> and \<^verbatim>\<open>64:ff9b::a00:1\<close> are the same address, inside
  \<^verbatim>\<open>64:ff9b::/96\<close>; \<^verbatim>\<open>fe80::1.2.3.4\<close> and \<^verbatim>\<open>fe80::102:304\<close> are the same address, inside
  \<^verbatim>\<open>fe80::/10\<close>. The spelling in hexadecimal is refused. The spelling that ends in a dotted
  quad contains a dot, so \<^verbatim>\<open>isAllowed\<close> appends \<^verbatim>\<open>/32\<close> and tests it against the IPv4 list,
  where no network has its length: it is reported scannable.
  Likewise \<^verbatim>\<open>127.0.0.1\<close> is refused, while the same address spelled as the IPv4-mapped
  literals \<^verbatim>\<open>::ffff:127.0.0.1\<close> (IPv4 list, cut to \<^verbatim>\<open>/32\<close> of 128 bits) and
  \<^verbatim>\<open>::ffff:7f00:1\<close> (IPv6 list) is reported scannable, although \<^verbatim>\<open>127.0.0.0/8\<close> contains
  it.
\<close>

theorem IsScannable_reserved_literal_passes:
  "ParseIP ''64:ff9b::10.0.0.1'' = Some [0, 100, 255, 155, 0, 0, 0, 0, 0, 0, 0, 0, 10, 0, 0, 1] \<and>
   ParseIP ''64:ff9b::a00:1'' = Some [0, 100, 255, 155, 0, 0, 0, 0, 0, 0, 0, 0, 10, 0, 0, 1] \<and>
   list_ex (\<lambda>n. Contains n [0, 100, 255, 155, 0, 0, 0, 0, 0, 0, 0, 0, 10, 0, 0, 1])
     NotScannableNetsIPV6 \<and>
   \<not> IsScannable noResolver ''64:ff9b::a00:1'' \<and>
   IsScannable noResolver ''64:ff9b::10.0.0.1'' \<and>
   ParseIP ''fe80::1.2.3.4'' = Some [254, 128, 0, 0, 0, 0, 0, 0, 0, 0, 0, 0, 1, 2, 3, 4] \<and>
   ParseIP ''fe80::102:304'' = Some [254, 128, 0, 0, 0, 0, 0, 0, 0, 0, 0, 0, 1, 2, 3, 4] \<and>
   list_ex (\<lambda>n. Contains n [254, 128, 0, 0, 0, 0, 0, 0, 0, 0, 0, 0, 1, 2, 3, 4])
     NotScannableNetsIPV6 \<and>
   \<not> IsScannable noResolver ''fe80::102:304'' \<and>
   IsScannable noResolver ''fe80::1.2.3.4'' \<and>
   ParseIP ''127.0.0.1'' = Some [0, 0, 0, 0, 0, 0, 0, 0, 0, 0, 255, 255, 127, 0, 0, 1] \<and>
   ParseIP ''::ffff:127.0.0.1'' = Some [0, 0, 0, 0, 0, 0, 0, 0, 0, 0, 255, 255, 127, 0, 0, 1] \<and>
   ParseIP ''::ffff:7f00:1'' = Some [0, 0, 0, 0, 0, 0, 0, 0, 0, 0, 255, 255, 127, 0, 0, 1] \<and>
   list_ex (\<lambda>n. Contains n [0, 0, 0, 0, 0, 0, 0, 0, 0, 0, 255, 255, 127, 0, 0, 1])
     NotScannableNetsIPV4 \<and>
   \<not> IsScannable noResolver ''127.0.0.1'' \<and>
   IsScannable noResolver ''::ffff:127.0.0.1'' \<and>
   IsScannable noResolver ''::ffff:7f00:1''"
  by (simp add: target_eval)

section \<open>A target that does not resolve\<close>

text \<open>
  C1, as stated, fails: the claim says that a failed resolution makes the target not
  scannable. \<^verbatim>\<open>test.example.com\<close> is neither an IP literal nor a CIDR; when its lookup
  fails (an error and no address), \<^verbatim>\<open>IsScannable\<close> returns true.
\<close>

theorem IsScannable_lookup_failure_counterexample:
  "\<not> IsIP ''test.example.com'' \<and> \<not> IsCIDR ''test.example.com'' \<and>
   LookupHost noResolver ''test.example.com'' = ([], Some (ErrorString ''no such host'')) \<and>
   IsScannable noResolver ''test.example.com''"
  by (simp add: noResolver_def target_eval)

text \<open>
  C1, amended. For every target that is not an IP literal or CIDR, \<^verbatim>\<open>IsScannable\<close>
  drops the error of the lookup (of the URL's hostname when the target is a URL) and
  returns the verdict of \<^verbatim>\<open>verifyIPs\<close> on the addresses returned with it; when the
  resolution fails with no address, that verdict is true: the target is treated as
  scannable, and no error reaches the caller.
\<close>

theorem IsScannable_lookup_failure:
  assumes "\<not> IsIP asset" and "\<not> IsCIDR asset"
  shows "IsScannable env asset =
           verifyIPs (fst (LookupHost env
             (case URLHostname env asset of Some h \<Rightarrow> h | None \<Rightarrow> asset))) \<and>
         (LookupHost env (case URLHostname env asset of Some h \<Rightarrow> h | None \<Rightarrow> asset) =
            ([], Some e) \<longrightarrow> IsScannable env asset)"
  using assms by (auto simp: IsScannable_def Let_def split: prod.splits)

theorem IsScannable_lookup_failure_witness:
  "IsScannable noResolver ''registry.hub.docker.com/library/alpine:latest''"
proof -
  have a: "\<not> IsIP ''registry.hub.docker.com/library/alpine:latest''"
    by (simp add: IsIP_def net_eval)
  have b: "\<not> IsCIDR ''registry.hub.docker.com/library/alpine:latest''"
    by (simp add: IsCIDR_def net_eval)
  have c: "LookupHost noResolver
      (case URLHostname noResolver ''registry.hub.docker.com/library/alpine:latest'' of
         Some h \<Rightarrow> h | None \<Rightarrow> ''registry.hub.docker.com/library/alpine:latest'') =
      ([], Some (ErrorString ''no such host''))"
    by (simp add: noResolver_def)
  from IsScannable_lookup_failure [OF a b, of noResolver "ErrorString ''no such host''"] c
  show ?thesis by blast
qed

section \<open>The cache of a target\<close>

lemma IsHostname_cached: "hostname t = Some h \<Longrightarrow> IsHostname env t w = ((h, None), w)"
  by (simp add: IsHostname_def)

lemma Target_IsDomainName_cached:
  "domainName t = Some d \<Longrightarrow> Target_IsDomainName env t w = ((d, None), w)"
  by (simp add: Target_IsDomainName_def)

lemma IsHostname_queries_again:
  assumes "hostname t = None" and "\<not> IsIP (Value t)"
  shows "queries (snd (IsHostname env t w)) = queries w @ [Value t]"
  using assms by (auto simp: IsHostname_def Let_def split: prod.splits option.splits)

text \<open>
  C3. The claim says that a second call on the same target returns the cached result
  without another query. With a fresh target for \<^verbatim>\<open>example.com\<close>, the first call of
  \<^verbatim>\<open>IsHostname\<close> succeeds with one lookup, and the second call on the same target looks
  the name up again; likewise each of two calls of \<^verbatim>\<open>IsDomainName\<close> exchanges with the
  resolver. The result stored by a call is stored in the method's copy of the target.
\<close>

theorem Target_cache_not_kept:
  "fst (IsHostname exampleDNS \<lparr>Value = ''example.com'', hostname = None, domainName = None\<rparr> world0)
     = (True, None) \<and>
   queries (snd (IsHostname exampleDNS
       \<lparr>Value = ''example.com'', hostname = None, domainName = None\<rparr> world0))
     = [''example.com''] \<and>
   queries (snd (IsHostname exampleDNS
       \<lparr>Value = ''example.com'', hostname = None, domainName = None\<rparr>
       (snd (IsHostname exampleDNS
          \<lparr>Value = ''example.com'', hostname = None, domainName = None\<rparr> world0))))
     = [''example.com'', ''example.com''] \<and>
   fst (Target_IsDomainName exampleDNS
       \<lparr>Value = ''example.com'', hostname = None, domainName = None\<rparr> world0)
     = (True, None) \<and>
   queries (snd (Target_IsDomainName exampleDNS
       \<lparr>Value = ''example.com'', hostname = None, domainName = None\<rparr> world0))
     = [''10.0.0.53:53''] \<and>
   queries (snd (Target_IsDomainName exampleDNS
       \<lparr>Value = ''example.com'', hostname = None, domainName = None\<rparr>
       (snd (Target_IsDomainName exampleDNS
          \<lparr>Value = ''example.com'', hostname = None, domainName = None\<rparr> world0))))
     = [''10.0.0.53:53'', ''10.0.0.53:53'']"
  by (simp add: IsHostname_def Target_IsDomainName_def IsDomainName_def hasSOARecord_def
      exampleDNS_def world0_def IsIP_def TypeSOA_def RcodeSuccess_def net_eval)

section \<open>No valid answer\<close>

lemma exchange_loop_all_refused:
  assumes "\<forall>srv\<in>set srvs. \<exists>m. ex (srv @ '':'' @ port) = Inr m \<and> Rcode m \<noteq> RcodeSuccess"
  shows "fst (exchange_loop ex port srvs r w) =
           (if srvs = [] then Inr r
            else (case ex (last srvs @ '':'' @ port) of Inr m \<Rightarrow> Inr (Some m) | Inl e \<Rightarrow> Inl e))"
  using assms
proof (induction srvs arbitrary: r w)
  case Nil
  then show ?case by simp
next
  case (Cons srv rest)
  from Cons.prems obtain m where m: "ex (srv @ '':'' @ port) = Inr m" "Rcode m \<noteq> RcodeSuccess"
    by auto
  from Cons.prems have rest: "\<forall>s\<in>set rest. \<exists>m. ex (s @ '':'' @ port) = Inr m \<and> Rcode m \<noteq> RcodeSuccess"
    by simp
  show ?case using m Cons.IH [OF rest] by (simp add: Let_def)
qed

lemma hasSOARecord_fst:
  assumes "(case dnsConf w of Some c \<Rightarrow> Inr c | None \<Rightarrow> ClientConfigFromFile env) = Inr conf"
  shows "fst (hasSOARecord env address w) =
     (case fst (exchange_loop (Exchange env (address @ ''.'')) (Port conf) (Servers conf) None
                 (w\<lparr>dnsConf := Some conf\<rparr>)) of
        Inl err \<Rightarrow> (False, Some err)
      | Inr None \<Rightarrow> (False, Some ErrFailedToGetDNSAnswer)
      | Inr (Some r) \<Rightarrow> (soaHeaderForName r (address @ ''.''), None))"
  using assms
  by (auto simp: hasSOARecord_def Let_def split: prod.splits sum.splits option.splits)

lemma exchange_loop_first_error:
  assumes "ex (srv @ '':'' @ port) = Inl err"
  shows "fst (exchange_loop ex port (srv # rest) r w) = Inl err"
  using assms by (simp add: Let_def)

text \<open>
  C8, as stated, fails: the claim says that \<^verbatim>\<open>IsDomainName\<close> fails with the "no valid
  answer" error whenever every configured resolver was tried without a successful response.
  With two resolvers that both answer with NXDOMAIN (code 3) for \<^verbatim>\<open>notAHostname\<close>,
  both are tried, none answers with success, and the result is false with no error.
\<close>

theorem hasSOARecord_no_answer_counterexample:
  "\<not> IsIP ''notAHostname'' \<and>
   fst (IsDomainName exampleDNS ''notAHostname'' world0) = (False, None) \<and>
   queries (snd (IsDomainName exampleDNS ''notAHostname'' world0)) = [''10.0.0.53:53'', ''10.0.0.54:53''] \<and>
   fst (Target_IsDomainName exampleDNS
          \<lparr>Value = ''notAHostname'', hostname = None, domainName = None\<rparr> world0) = (False, None)"
  by (simp add: Target_IsDomainName_def IsDomainName_def hasSOARecord_def
      exampleDNS_def world0_def IsIP_def TypeSOA_def RcodeSuccess_def net_eval)

text \<open>
  C8, amended. With the resolver configuration at hand (cached, or read without error),
  \<^verbatim>\<open>IsDomainName\<close> fails with the "no valid answer" error when the configuration lists no
  resolver. When every listed resolver answers and none with the success code, it returns
  no error: the result is read off the response of the last resolver. When the exchange
  with the first resolver fails, its error is returned.
\<close>

theorem hasSOARecord_no_valid_answer:
  assumes "(case dnsConf w of Some c \<Rightarrow> Inr c | None \<Rightarrow> ClientConfigFromFile env) = Inr conf"
  shows "(Servers conf = [] \<longrightarrow>
            fst (IsDomainName env address w) = (False, Some ErrFailedToGetDNSAnswer)) \<and>
         (Servers conf \<noteq> [] \<and>
          (\<forall>srv\<in>set (Servers conf).
             \<exists>m. Exchange env (address @ ''.'') (srv @ '':'' @ Port conf) = Inr m \<and>
                 Rcode m \<noteq> RcodeSuccess) \<longrightarrow>
            (\<exists>m. Exchange env (address @ ''.'') (last (Servers conf) @ '':'' @ Port conf) = Inr m \<and>
                 fst (IsDomainName env address w) = (soaHeaderForName m (address @ ''.''), None))) \<and>
         (\<forall>srv rest err. Servers conf = srv # rest \<and>
             Exchange env (address @ ''.'') (srv @ '':'' @ Port conf) = Inl err \<longrightarrow>
            fst (IsDomainName env address w) = (False, Some err))"
proof (intro conjI impI allI)
  assume "Servers conf = []"
  with assms show "fst (IsDomainName env address w) = (False, Some ErrFailedToGetDNSAnswer)"
    by (simp add: IsDomainName_def hasSOARecord_fst)
next
  assume a: "Servers conf \<noteq> [] \<and>
    (\<forall>srv\<in>set (Servers conf).
       \<exists>m. Exchange env (address @ ''.'') (srv @ '':'' @ Port conf) = Inr m \<and>
           Rcode m \<noteq> RcodeSuccess)"
  then have "last (Servers conf) \<in> set (Servers conf)" by simp
  with a obtain m where m: "Exchange env (address @ ''.'') (last (Servers conf) @ '':'' @ Port conf) = Inr m"
    by blast
  from a have "fst (exchange_loop (Exchange env (address @ ''.'')) (Port conf) (Servers conf) None
      (w\<lparr>dnsConf := Some conf\<rparr>)) = Inr (Some m)"
    using exchange_loop_all_refused [of "Servers conf" "Exchange env (address @ ''.'')" "Port conf"]
      m by simp
  with assms have "fst (IsDomainName env address w) = (soaHeaderForName m (address @ ''.''), None)"
    by (simp add: IsDomainName_def hasSOARecord_fst)
  with m show "\<exists>m. Exchange env (address @ ''.'') (last (Servers conf) @ '':'' @ Port conf) = Inr m \<and>
      fst (IsDomainName env address w) = (soaHeaderForName m (address @ ''.''), None)"
    by blast
next
  fix srv rest err
  assume a: "Servers conf = srv # rest \<and>
    Exchange env (address @ ''.'') (srv @ '':'' @ Port conf) = Inl err"
  then have "fst (exchange_loop (Exchange env (address @ ''.'')) (Port conf) (Servers conf) None
      (w\<lparr>dnsConf := Some conf\<rparr>)) = Inl err"
    using exchange_loop_first_error [of "Exchange env (address @ ''.'')" srv "Port conf" err rest]
    by simp
  with assms show "fst (IsDomainName env address w) = (False, Some err)"
    by (simp add: IsDomainName_def hasSOARecord_fst)
qed

theorem hasSOARecord_no_valid_answer_witness:
  "fst (IsDomainName (exampleDNS\<lparr>ClientConfigFromFile := Inr \<lparr>Servers = [], Port = ''53''\<rparr>\<rparr>)
          ''example.com'' world0) = (False, Some ErrFailedToGetDNSAnswer) \<and>
   fst (IsDomainName exampleDNS ''www.example.com'' world0) = (False, None) \<and>
   fst (IsDomainName
          (exampleDNS\<lparr>Exchange := (\<lambda>name srv. Inl (ErrorString ''i/o timeout''))\<rparr>)
          ''example.com'' world0) = (False, Some (ErrorString ''i/o timeout''))"
proof -
  have a: "fst (IsDomainName (exampleDNS\<lparr>ClientConfigFromFile := Inr \<lparr>Servers = [], Port = ''53''\<rparr>\<rparr>)
          ''example.com'' world0) = (False, Some ErrFailedToGetDNSAnswer)"
    using hasSOARecord_no_valid_answer [where w = world0
        and env = "exampleDNS\<lparr>ClientConfigFromFile := Inr \<lparr>Servers = [], Port = ''53''\<rparr>\<rparr>"
        and conf = "\<lparr>Servers = [], Port = ''53''\<rparr>" and address = "''example.com''"]
    by (simp add: world0_def exampleDNS_def)
  have b: "fst (IsDomainName exampleDNS ''www.example.com'' world0) = (False, None)"
    using hasSOARecord_no_valid_answer [where w = world0 and env = exampleDNS
        and conf = "\<lparr>Servers = [''10.0.0.53'', ''10.0.0.54''], Port = ''53''\<rparr>"
        and address = "''www.example.com''"]
    by (simp add: world0_def exampleDNS_def RcodeSuccess_def TypeSOA_def)
  have c: "fst (IsDomainName
          (exampleDNS\<lparr>Exchange := (\<lambda>name srv. Inl (ErrorString ''i/o timeout''))\<rparr>)
          ''example.com'' world0) = (False, Some (ErrorString ''i/o timeout''))"
    using hasSOARecord_no_valid_answer [where w = world0
        and env = "exampleDNS\<lparr>Exchange := (\<lambda>name srv. Inl (ErrorString ''i/o timeout''))\<rparr>"
        and conf = "\<lparr>Servers = [''10.0.0.53'', ''10.0.0.54''], Port = ''53''\<rparr>"
        and address = "''example.com''"]
    by (simp add: world0_def exampleDNS_def)
  show ?thesis by (rule conjI [OF a conjI [OF b c]])
qed

section \<open>The process harness\<close>

lemma harness_ctl_Run_step:
  assumes "harness_ctl h" and "Run_step env h = Some h'"
  shows "harness_ctl h'"
proof (cases "run_at h")
  case AtEntry
  with assms show ?thesis
    by (auto simp: harness_ctl_def Run_step_def split: if_splits)
next
  case AtDone
  with assms show ?thesis
    by (auto simp: harness_ctl_def Run_step_def split: if_splits)
qed (use assms in \<open>auto simp: harness_ctl_def Run_step_def\<close>)

lemma harness_data_Run_step:
  assumes "harness_data chunks h" and "harness_ctl h" and "Run_step env h = Some h'"
  shows "harness_data chunks h'"
proof (cases "run_at h")
  case AtEntry
  with assms show ?thesis
    by (auto simp: harness_data_def harness_ctl_def Run_step_def split: if_splits)
next
  case AtDone
  with assms show ?thesis
    by (auto simp: harness_data_def Run_step_def split: if_splits)
qed (use assms in \<open>auto simp: harness_data_def Run_step_def\<close>)

text \<open>What a step of the reader is, read off its definition.\<close>

lemma readAndProcess_step_cases:
  assumes "readAndProcess_step process h = Some h'"
  obtains (exhausted) "reader_at h = Scanning" "scanner h = []" "h' = h\<lparr>reader_at := Deferred\<rparr>"
    | (cancelled) payload rest where "reader_at h = Scanning" "scanner h = (payload, True) # rest"
        "h' = h\<lparr>reader_at := Deferred, scanner := rest\<rparr>"
    | (stop) payload rest st' where "reader_at h = Scanning" "scanner h = (payload, False) # rest"
        "process (checker_state h) payload = (False, st')"
        "h' = h\<lparr>reader_at := Deferred, scanner := rest,
               delivered := delivered h @ [(payload, False)], checker_state := st'\<rparr>"
    | (continue) payload rest st' where "reader_at h = Scanning" "scanner h = (payload, False) # rest"
        "process (checker_state h) payload = (True, st')"
        "h' = h\<lparr>reader_at := Scanning, scanner := rest,
               delivered := delivered h @ [(payload, True)], checker_state := st'\<rparr>"
proof (cases "reader_at h")
  case Scanning
  show ?thesis
  proof (cases "scanner h")
    case Nil
    with Scanning assms show ?thesis by (simp add: readAndProcess_step_def exhausted)
  next
    case (Cons a rest)
    obtain payload c where a: "a = (payload, c)" by (cases a)
    obtain cont st' where p: "process (checker_state h) payload = (cont, st')"
      by (cases "process (checker_state h) payload")
    show ?thesis
    proof (cases c)
      case True
      with Scanning Cons a assms show ?thesis by (simp add: readAndProcess_step_def cancelled)
    next
      case False
      note nc = this
      show ?thesis
      proof (cases cont)
        case True
        with nc Scanning Cons a p assms show ?thesis
          by (simp add: readAndProcess_step_def continue)
      next
        case False
        with nc Scanning Cons a p assms show ?thesis
          by (simp add: readAndProcess_step_def stop)
      qed
    qed
  qed
qed (use assms in \<open>simp_all add: readAndProcess_step_def\<close>)

lemma harness_ctl_reader_step:
  assumes "harness_ctl h" and "readAndProcess_step process h = Some h'"
  shows "harness_ctl h'"
  using assms(2)
proof (cases rule: readAndProcess_step_cases)
  case exhausted
  with assms(1) show ?thesis by (cases "run_at h") (simp_all add: harness_ctl_def)
next
  case (cancelled payload rest)
  with assms(1) show ?thesis by (cases "run_at h") (simp_all add: harness_ctl_def)
next
  case (stop payload rest st')
  with assms(1) show ?thesis by (cases "run_at h") (simp_all add: harness_ctl_def)
next
  case (continue payload rest st')
  with assms(1) show ?thesis by (cases "run_at h") (simp_all add: harness_ctl_def)
qed

lemma harness_data_reader_step:
  assumes "harness_data chunks h" and "readAndProcess_step process h = Some h'"
  shows "harness_data chunks h'"
  using assms(2)
proof (cases rule: readAndProcess_step_cases)
  case exhausted
  with assms(1) show ?thesis by (simp add: harness_data_def)
next
  case (cancelled payload rest)
  with assms(1) show ?thesis by (simp add: harness_data_def)
next
  case (stop payload rest st')
  with assms(1) show ?thesis by (simp add: harness_data_def butlast_append)
next
  case (continue payload rest st')
  with assms(1) show ?thesis by (simp add: harness_data_def butlast_append)
qed

lemma harness_inv_reachable:
  assumes "harness_reachable env process (harness0 chunks st) h"
  shows "harness_ctl h \<and> harness_data chunks h"
  using assms unfolding harness_reachable_def
proof (induction rule: rtranclp_induct)
  case base
  show ?case by (simp add: harness_ctl_def harness_data_def harness0_def)
next
  case (step h h')
  from step.hyps(2) step.IH show ?case
    by (cases rule: harness_step.cases)
       (auto intro: harness_ctl_Run_step harness_data_Run_step
          harness_ctl_reader_step harness_data_reader_step)
qed

lemma harness_exec_reachable:
  "harness_exec env process gs h = Some h' \<Longrightarrow> harness_reachable env process h h'"
proof (induction gs arbitrary: h)
  case Nil
  then show ?case by (simp add: harness_reachable_def)
next
  case (Cons g gs)
  show ?case
  proof (cases g)
    case RunG
    with Cons.prems obtain h1 where h1: "Run_step env h = Some h1"
      "harness_exec env process gs h1 = Some h'"
      by (auto split: option.splits)
    from h1(1) have "harness_step env process h h1" by (rule harness_step.run)
    with Cons.IH [OF h1(2)] show ?thesis
      unfolding harness_reachable_def by (rule converse_rtranclp_into_rtranclp [rotated])
  next
    case ReaderG
    with Cons.prems obtain h1 where h1: "readAndProcess_step process h = Some h1"
      "harness_exec env process gs h1 = Some h'"
      by (auto split: option.splits)
    from h1(1) have "harness_step env process h h1" by (rule harness_step.reader)
    with Cons.IH [OF h1(2)] show ?thesis
      unfolding harness_reachable_def by (rule converse_rtranclp_into_rtranclp [rotated])
  qed
qed

lemma butlast_all_last_position:
  assumes "list_all snd (butlast xs)" and "k < length xs" and "\<not> snd (xs ! k)"
  shows "Suc k = length xs"
proof (rule ccontr)
  assume "Suc k \<noteq> length xs"
  with assms(2) have "k < length (butlast xs)" by simp
  with assms(1) have "snd (butlast xs ! k)" by (simp add: list_all_length)
  moreover have "butlast xs ! k = xs ! k" using \<open>k < length (butlast xs)\<close> by (simp add: nth_butlast)
  ultimately show False using assms(3) by simp
qed

text \<open>
  C6. In every state that a run of the harness can reach, from any output of the process
  split into chunks, under any interleaving of the two goroutines: a chunk for which the
  processor returned false is the last chunk delivered to it, whatever output follows, and
  while the reader is still in its loop no delivered chunk was answered false; the chunks
  delivered are an initial part of the output, in order; and once \<^verbatim>\<open>Run\<close> has returned the
  process state, the reader has left its loop and finished (it is past its send on
  \<^verbatim>\<open>done\<close>). When \<^verbatim>\<open>Run\<close> has returned at all, the reader is not reading.
\<close>

theorem harness_stops_reading:
  assumes "harness_reachable env process (harness0 chunks st) h"
  shows "(\<forall>k. k < length (delivered h) \<and> \<not> snd (delivered h ! k) \<longrightarrow>
             Suc k = length (delivered h) \<and> reader_at h \<noteq> Scanning) \<and>
         (\<exists>rest. map fst chunks = map fst (delivered h) @ rest) \<and>
         (\<forall>pState err. returned h = Some (Some pState, err) \<longrightarrow> reader_at h = ReaderExited) \<and>
         (returned h \<noteq> None \<longrightarrow> reader_at h \<noteq> Scanning \<and> run_at h = Returned)"
proof -
  from harness_inv_reachable [OF assms] have ctl: "harness_ctl h" and data: "harness_data chunks h"
    by simp_all
  have 1: "\<forall>k. k < length (delivered h) \<and> \<not> snd (delivered h ! k) \<longrightarrow>
             Suc k = length (delivered h) \<and> reader_at h \<noteq> Scanning"
  proof (intro allI impI)
    fix k assume k: "k < length (delivered h) \<and> \<not> snd (delivered h ! k)"
    from data have "list_all snd (butlast (delivered h))" by (simp add: harness_data_def)
    with k have a: "Suc k = length (delivered h)" using butlast_all_last_position by blast
    from data k have b: "reader_at h \<noteq> Scanning"
      by (auto simp: harness_data_def list_all_length)
    from a b show "Suc k = length (delivered h) \<and> reader_at h \<noteq> Scanning" ..
  qed
  have 2: "\<exists>rest. map fst chunks = map fst (delivered h) @ rest"
    using data by (simp add: harness_data_def)
  have 3: "\<forall>pState err. returned h = Some (Some pState, err) \<longrightarrow> reader_at h = ReaderExited"
    using ctl by (cases "run_at h") (auto simp: harness_ctl_def)
  have 4: "returned h \<noteq> None \<longrightarrow> reader_at h \<noteq> Scanning \<and> run_at h = Returned"
    using ctl by (cases "run_at h") (auto simp: harness_ctl_def)
  from 1 2 3 4 show ?thesis by blast
qed

theorem harness_stops_reading_witness:
  "harness_exec okProcess untilToken
     [RunG, ReaderG, RunG, ReaderG, RunG, RunG, RunG]
     (harness0 [(''line 1'', False), (''STOP'', False), (''line 3'', False)] ()) =
   Some \<lparr>run_at = Returned, reader_at = ReaderExited, scanner = [(''line 3'', False)],
         delivered = [(''line 1'', True), (''STOP'', False)], checker_state = (),
         returned = Some (Some 0, None)\<rparr> \<and>
   reader_at \<lparr>run_at = Returned, reader_at = ReaderExited, scanner = [(''line 3'', False)],
         delivered = [(''line 1'', True), (''STOP'', False)], checker_state = (),
         returned = Some (Some 0, None)\<rparr> = ReaderExited"
proof -
  let ?h = "\<lparr>run_at = Returned, reader_at = ReaderExited, scanner = [(''line 3'', False)],
         delivered = [(''line 1'', True), (''STOP'', False)], checker_state = (),
         returned = Some (Some (0::int), None)\<rparr>"
  have e: "harness_exec okProcess untilToken
     [RunG, ReaderG, RunG, ReaderG, RunG, RunG, RunG]
     (harness0 [(''line 1'', False), (''STOP'', False), (''line 3'', False)] ()) = Some ?h"
    by (simp add: harness0_def Run_step_def readAndProcess_step_def okProcess_def untilToken_def)
  from harness_exec_reachable [OF e] have r: "harness_reachable okProcess untilToken
     (harness0 [(''line 1'', False), (''STOP'', False), (''line 3'', False)] ()) ?h" .
  from harness_stops_reading [OF r]
  have "\<forall>pState err. returned ?h = Some (Some pState, err) \<longrightarrow> reader_at ?h = ReaderExited"
    by blast
  then have x: "reader_at ?h = ReaderExited" by simp
  show ?thesis by (rule conjI [OF e x])
qed

section \<open>The queue of the REST pusher\<close>















end
